theory Spec2Isabelle
  imports
    Main
    "HOL-Library.Word"
    "HOL-Library.Multiset"
    "HOL-Library.AList"
    "HOL-Library.Char_ord"
    "HOL-Library.List_Lexorder"
begin

section \<open>Report model (types.go)\<close>

text \<open>
  The structs of the package become records and a slice becomes a list. Go's \<open>int\<close> is
  modelled by \<open>int\<close>: the engines only compare the integers they read with \<open>0\<close>, and the
  counters they build are bounded by the length of a slice, so no arithmetic of the code can
  leave the 64-bit range. A \<open>string\<close> is a byte sequence, here a \<open>char list\<close>. The
  \<open>float64\<close> field \<open>BlocksPercent\<close> is only carried along; it is kept as its bit pattern.
  Field names used by several structs carry a suffix for the later struct
  (\<open>_inc\<close>, \<open>_unc\<close>, \<open>_v1\<close>, \<open>_tgt\<close>).
\<close>

record Line =
  LineNumber :: int
  FunctionName :: string
  Count :: int

record Function =
  Name :: string
  DemangledName :: string
  LineNo :: int
  ExecutionCount :: int
  BlocksPercent :: "64 word"
  Pos :: "string list"

record File =
  FilePath :: string
  Lines :: "Line list"
  Functions :: "Function list"

record GcovrReport =
  FormatVersion :: string
  Files :: "File list"

record FunctionCoverageIncrease =
  File_inc :: string
  FunctionName_inc :: string
  DemangledName_inc :: string
  LinesIncreased :: int
  TotalLines :: int
  IncreasedLineNumbers :: "int list"
  OldCoveredLines :: int
  NewCoveredLines :: int

record CoverageIncreaseReport =
  Increases :: "FunctionCoverageIncrease list"

record FunctionUncovered =
  FunctionName_unc :: string
  DemangledName_unc :: string
  UncoveredLineNumbers :: "int list"
  TotalLines_unc :: int
  CoveredLines :: int

record FileUncovered =
  FilePath_unc :: string
  UncoveredFunctions :: "FunctionUncovered list"

record UncoveredReport =
  Files_unc :: "FileUncovered list"

text \<open>
  Both engines return a pair of a result pointer and an \<open>error\<close>; \<open>nil\<close> is \<open>None\<close>.
  They take their reports by pointer, and the first thing each of them does with a report is
  to read its \<open>Files\<close>: on a nil pointer that is a run-time panic.
\<close>

datatype go_error = Go_error string

datatype panic = NilPointerDereference

section \<open>Go maps\<close>

text \<open>
  A Go map is modelled by an association list with one entry per key, in the order in which
  the keys were first stored. \<open>map_index z m k\<close> is the index expression \<open>m[k]\<close>, which
  yields the zero value \<open>z\<close> of the element type for a missing key; \<open>map_has m k\<close> is the
  second result of \<open>_, exists := m[k]\<close>; \<open>map_assign m k v\<close> is \<open>m[k] = v\<close>.
\<close>

type_synonym ('k, 'v) gomap = "('k \<times> 'v) list"

definition map_index :: "'v \<Rightarrow> ('k, 'v) gomap \<Rightarrow> 'k \<Rightarrow> 'v" where
  "map_index z m k = (case map_of m k of None \<Rightarrow> z | Some v \<Rightarrow> v)"

definition map_has :: "('k, 'v) gomap \<Rightarrow> 'k \<Rightarrow> bool" where
  "map_has m k = (case map_of m k of None \<Rightarrow> False | Some v \<Rightarrow> True)"

definition map_assign :: "('k, 'v) gomap \<Rightarrow> 'k \<Rightarrow> 'v \<Rightarrow> ('k, 'v) gomap" where
  "map_assign m k v = AList.update k v m"

definition map_keys :: "('k, 'v) gomap \<Rightarrow> 'k list" where
  "map_keys m = map fst m"

text \<open>
  Go does not specify the order in which \<open>range\<close> visits the keys of a map, and the order
  may differ from run to run. The model takes the order as a parameter: a \<open>map_order\<close>
  turns the key list of a map into the sequence of keys that \<open>range\<close> visits, for the maps
  keyed by strings and for those keyed by integers. Every order Go may choose visits each key
  once, which is \<open>range_order_ok\<close>. Two orders are used on the examples: the order in which
  the keys were stored and its reverse.
\<close>

record map_order =
  str_order :: "string list \<Rightarrow> string list"
  int_order :: "int list \<Rightarrow> int list"

definition range_order_ok :: "map_order \<Rightarrow> bool" where
  "range_order_ok w \<longleftrightarrow>
     (\<forall>ks. mset (str_order w ks) = mset ks) \<and> (\<forall>ks. mset (int_order w ks) = mset ks)"

definition insertion_order :: map_order where
  "insertion_order = \<lparr>str_order = (\<lambda>ks. ks), int_order = (\<lambda>ks. ks)\<rparr>"

definition reverse_order :: map_order where
  "reverse_order = \<lparr>str_order = rev, int_order = rev\<rparr>"

section \<open>Diff engine (diff.go)\<close>

text \<open>\<open>buildLineCoverageMap\<close>: function name to line number to count.\<close>

fun buildLineCoverageMap_loop ::
  "Line list \<Rightarrow> (string, (int, int) gomap) gomap \<Rightarrow> (string, (int, int) gomap) gomap" where
  "buildLineCoverageMap_loop [] result = result"
| "buildLineCoverageMap_loop (line # rest) result =
     (let result1 = (if \<not> map_has result (FunctionName line)
                     then map_assign result (FunctionName line) []
                     else result);
          inner = map_index [] result1 (FunctionName line)
      in buildLineCoverageMap_loop rest
           (map_assign result1 (FunctionName line)
              (map_assign inner (LineNumber line) (Count line))))"

definition buildLineCoverageMap :: "File \<Rightarrow> (string, (int, int) gomap) gomap" where
  "buildLineCoverageMap file = buildLineCoverageMap_loop (Lines file) []"

text \<open>\<open>buildFunctionNameMap\<close>: mangled name to demangled name.\<close>

fun buildFunctionNameMap_loop ::
  "Function list \<Rightarrow> (string, string) gomap \<Rightarrow> (string, string) gomap" where
  "buildFunctionNameMap_loop [] result = result"
| "buildFunctionNameMap_loop (fn # rest) result =
     buildFunctionNameMap_loop rest (map_assign result (Name fn) (DemangledName fn))"

definition buildFunctionNameMap :: "File \<Rightarrow> (string, string) gomap" where
  "buildFunctionNameMap file = buildFunctionNameMap_loop (Functions file) []"

text \<open>\<open>getTotalFunctionLines\<close>: the number of lines of a function.\<close>

fun getTotalFunctionLines_loop :: "Line list \<Rightarrow> string \<Rightarrow> int \<Rightarrow> int" where
  "getTotalFunctionLines_loop [] funcName cnt = cnt"
| "getTotalFunctionLines_loop (line # rest) funcName cnt =
     getTotalFunctionLines_loop rest funcName
       (if FunctionName line = funcName then cnt + 1 else cnt)"

definition getTotalFunctionLines :: "File \<Rightarrow> string \<Rightarrow> int" where
  "getTotalFunctionLines file funcName = getTotalFunctionLines_loop (Lines file) funcName 0"

text \<open>
  \<open>processNewFile\<close>: a file of the new report that the base report does not have. The
  first loop groups the covered line numbers by function, the second stores the demangled
  names (it is the loop of \<open>buildFunctionNameMap\<close>), the third walks the map
  \<open>funcLines\<close>; \<open>processNewFile_record\<close> is the body of the third loop.
\<close>

fun processNewFile_group ::
  "Line list \<Rightarrow> (string, int list) gomap \<Rightarrow> (string, int list) gomap" where
  "processNewFile_group [] funcLines = funcLines"
| "processNewFile_group (line # rest) funcLines =
     processNewFile_group rest
       (if Count line > 0
        then map_assign funcLines (FunctionName line)
               (map_index [] funcLines (FunctionName line) @ [LineNumber line])
        else funcLines)"

definition processNewFile_record ::
  "File \<Rightarrow> (string, int list) gomap \<Rightarrow> (string, string) gomap \<Rightarrow> string \<Rightarrow>
   FunctionCoverageIncrease" where
  "processNewFile_record file funcLines funcDemangledName funcName =
     (let lineNumbers = map_index [] funcLines funcName;
          demangledName0 = map_index [] funcDemangledName funcName;
          demangledName = (if demangledName0 = [] then funcName else demangledName0);
          totalLines = getTotalFunctionLines file funcName
      in \<lparr>File_inc = FilePath file,
          FunctionName_inc = funcName,
          DemangledName_inc = demangledName,
          LinesIncreased = int (length lineNumbers),
          TotalLines = totalLines,
          IncreasedLineNumbers = lineNumbers,
          OldCoveredLines = 0,
          NewCoveredLines = int (length lineNumbers)\<rparr>)"

fun processNewFile_loop ::
  "File \<Rightarrow> (string, int list) gomap \<Rightarrow> (string, string) gomap \<Rightarrow> string list \<Rightarrow>
   FunctionCoverageIncrease list \<Rightarrow> FunctionCoverageIncrease list" where
  "processNewFile_loop file funcLines funcDemangledName [] increases = increases"
| "processNewFile_loop file funcLines funcDemangledName (funcName # rest) increases =
     processNewFile_loop file funcLines funcDemangledName rest
       (increases @ [processNewFile_record file funcLines funcDemangledName funcName])"

definition processNewFile :: "map_order \<Rightarrow> File \<Rightarrow> FunctionCoverageIncrease list" where
  "processNewFile w file =
     (let funcLines = processNewFile_group (Lines file) [];
          funcDemangledName = buildFunctionNameMap_loop (Functions file) []
      in processNewFile_loop file funcLines funcDemangledName
           (str_order w (map_keys funcLines)) [])"

text \<open>
  \<open>compareFunctions\<close>: a file that both reports have. The inner loop walks the lines of
  one function of the new file; its state is the triple of \<open>increasedLines\<close>,
  \<open>oldCoveredCount\<close> and \<open>newCoveredCount\<close>. \<open>compareFunctions_function\<close> is the body
  of the outer loop: the records it appends for one function, none or one.
\<close>

fun compareFunctions_lines ::
  "bool \<Rightarrow> (int, int) gomap \<Rightarrow> (int, int) gomap \<Rightarrow> int list \<Rightarrow>
   int list \<times> int \<times> int \<Rightarrow> int list \<times> int \<times> int" where
  "compareFunctions_lines exists baseLines newLines [] acc = acc"
| "compareFunctions_lines exists baseLines newLines (lineNum # rest)
     (increasedLines, oldCoveredCount, newCoveredCount) =
     (let newCount = map_index 0 newLines lineNum;
          baseCount = (if exists then map_index 0 baseLines lineNum else 0)
      in compareFunctions_lines exists baseLines newLines rest
           (if baseCount = 0 \<and> newCount > 0 then increasedLines @ [lineNum] else increasedLines,
            if baseCount > 0 then oldCoveredCount + 1 else oldCoveredCount,
            if newCount > 0 then newCoveredCount + 1 else newCoveredCount))"

definition compareFunctions_function ::
  "map_order \<Rightarrow> File \<Rightarrow> (string, (int, int) gomap) gomap \<Rightarrow> (string, (int, int) gomap) gomap \<Rightarrow>
   (string, string) gomap \<Rightarrow> string \<Rightarrow> FunctionCoverageIncrease list" where
  "compareFunctions_function w newFile baseCoverage newCoverage funcNames funcName =
     (let newLines = map_index [] newCoverage funcName;
          baseLines = map_index [] baseCoverage funcName;
          exists = map_has baseCoverage funcName;
          (increasedLines, oldCoveredCount, newCoveredCount) =
             compareFunctions_lines exists baseLines newLines
               (int_order w (map_keys newLines)) ([], 0, 0)
      in if length increasedLines > 0
         then (let demangledName0 = map_index [] funcNames funcName;
                   demangledName = (if demangledName0 = [] then funcName else demangledName0);
                   totalLines = getTotalFunctionLines newFile funcName
               in [\<lparr>File_inc = FilePath newFile,
                    FunctionName_inc = funcName,
                    DemangledName_inc = demangledName,
                    LinesIncreased = int (length increasedLines),
                    TotalLines = totalLines,
                    IncreasedLineNumbers = increasedLines,
                    OldCoveredLines = oldCoveredCount,
                    NewCoveredLines = newCoveredCount\<rparr>])
         else [])"

fun compareFunctions_loop ::
  "map_order \<Rightarrow> File \<Rightarrow> (string, (int, int) gomap) gomap \<Rightarrow> (string, (int, int) gomap) gomap \<Rightarrow>
   (string, string) gomap \<Rightarrow> string list \<Rightarrow>
   FunctionCoverageIncrease list \<Rightarrow> FunctionCoverageIncrease list" where
  "compareFunctions_loop w newFile baseCoverage newCoverage funcNames [] increases = increases"
| "compareFunctions_loop w newFile baseCoverage newCoverage funcNames (funcName # rest) increases =
     compareFunctions_loop w newFile baseCoverage newCoverage funcNames rest
       (increases @
        compareFunctions_function w newFile baseCoverage newCoverage funcNames funcName)"

definition compareFunctions ::
  "map_order \<Rightarrow> File \<Rightarrow> File \<Rightarrow> FunctionCoverageIncrease list" where
  "compareFunctions w baseFile newFile =
     (let baseCoverage = buildLineCoverageMap baseFile;
          newCoverage = buildLineCoverageMap newFile;
          funcNames = buildFunctionNameMap newFile
      in compareFunctions_loop w newFile baseCoverage newCoverage funcNames
           (str_order w (map_keys newCoverage)) [])"

text \<open>
  \<open>ComputeCoverageIncrease\<close>: the base files are indexed by path (a later file with the
  same path replaces an earlier one), then the files of the new report are taken in order.
\<close>

fun baseFileMap_loop :: "File list \<Rightarrow> (string, File) gomap \<Rightarrow> (string, File) gomap" where
  "baseFileMap_loop [] baseFileMap = baseFileMap"
| "baseFileMap_loop (file # rest) baseFileMap =
     baseFileMap_loop rest (map_assign baseFileMap (FilePath file) file)"

fun ComputeCoverageIncrease_loop ::
  "map_order \<Rightarrow> (string, File) gomap \<Rightarrow> File list \<Rightarrow>
   FunctionCoverageIncrease list \<Rightarrow> FunctionCoverageIncrease list" where
  "ComputeCoverageIncrease_loop w baseFileMap [] increases = increases"
| "ComputeCoverageIncrease_loop w baseFileMap (newFile # rest) increases =
     (case map_of baseFileMap (FilePath newFile) of
        None \<Rightarrow>
          ComputeCoverageIncrease_loop w baseFileMap rest (increases @ processNewFile w newFile)
      | Some baseFile \<Rightarrow>
          ComputeCoverageIncrease_loop w baseFileMap rest
            (increases @ compareFunctions w baseFile newFile))"

definition ComputeCoverageIncrease ::
  "map_order \<Rightarrow> GcovrReport option \<Rightarrow> GcovrReport option \<Rightarrow>
   panic + (CoverageIncreaseReport \<times> go_error option)" where
  "ComputeCoverageIncrease w baseReport newReport =
     (case baseReport of
        None \<Rightarrow> Inl NilPointerDereference
      | Some base \<Rightarrow>
          (case newReport of
             None \<Rightarrow> Inl NilPointerDereference
           | Some new \<Rightarrow>
               (let baseFileMap = baseFileMap_loop (Files base) []
                in Inr (\<lparr>Increases = ComputeCoverageIncrease_loop w baseFileMap (Files new) []\<rparr>,
                        None))))"

section \<open>Uncovered engine (uncovered.go)\<close>

text \<open>
  The first pass of \<open>FindUncoveredLines\<close> stores, for the path of every file, a fresh map
  from function name to the uncovered line numbers and a fresh map from function name to
  demangled name, and then fills the two maps that the path now refers to: the second with
  the loop of \<open>buildFunctionNameMap\<close>, the first with the loop \<open>FindUncoveredLines_collect\<close>
  over the lines of count \<open>0\<close>.
\<close>

fun FindUncoveredLines_collect ::
  "Line list \<Rightarrow> (string, int list) gomap \<Rightarrow> (string, int list) gomap" where
  "FindUncoveredLines_collect [] uncovered = uncovered"
| "FindUncoveredLines_collect (line # rest) uncovered =
     FindUncoveredLines_collect rest
       (if Count line = 0
        then (let uncovered1 = (if \<not> map_has uncovered (FunctionName line)
                                then map_assign uncovered (FunctionName line) []
                                else uncovered)
              in map_assign uncovered1 (FunctionName line)
                   (map_index [] uncovered1 (FunctionName line) @ [LineNumber line]))
        else uncovered)"

fun FindUncoveredLines_firstPass ::
  "File list \<Rightarrow>
   (string, (string, int list) gomap) gomap \<times> (string, (string, string) gomap) gomap \<Rightarrow>
   (string, (string, int list) gomap) gomap \<times> (string, (string, string) gomap) gomap" where
  "FindUncoveredLines_firstPass [] (uncoveredMap, funcMetadata) = (uncoveredMap, funcMetadata)"
| "FindUncoveredLines_firstPass (file # rest) (uncoveredMap, funcMetadata) =
     (let uncoveredMap1 = map_assign uncoveredMap (FilePath file) [];
          funcMetadata1 = map_assign funcMetadata (FilePath file) [];
          funcMetadata2 = map_assign funcMetadata1 (FilePath file)
            (buildFunctionNameMap_loop (Functions file)
               (map_index [] funcMetadata1 (FilePath file)));
          uncoveredMap2 = map_assign uncoveredMap1 (FilePath file)
            (FindUncoveredLines_collect (Lines file)
               (map_index [] uncoveredMap1 (FilePath file)))
      in FindUncoveredLines_firstPass rest (uncoveredMap2, funcMetadata2))"

text \<open>
  The paths whose map of uncovered lines has an entry, in the order of the walk over
  \<open>uncoveredMap\<close> and then sorted by \<open>sort.Strings\<close>, which orders strings byte by byte.
\<close>

definition FindUncoveredLines_filePaths ::
  "map_order \<Rightarrow> (string, (string, int list) gomap) gomap \<Rightarrow> string list" where
  "FindUncoveredLines_filePaths w uncoveredMap =
     sort (filter (\<lambda>filePath. length (map_index [] uncoveredMap filePath) > 0)
             (str_order w (map_keys uncoveredMap)))"

text \<open>The search for the file object: the first file of the report with the path.\<close>

fun FindUncoveredLines_fileObj :: "File list \<Rightarrow> string \<Rightarrow> File option" where
  "FindUncoveredLines_fileObj [] filePath = None"
| "FindUncoveredLines_fileObj (file # rest) filePath =
     (if FilePath file = filePath then Some file
      else FindUncoveredLines_fileObj rest filePath)"

text \<open>The loop that counts the lines and the covered lines of a function.\<close>

fun FindUncoveredLines_stats :: "Line list \<Rightarrow> string \<Rightarrow> int \<times> int \<Rightarrow> int \<times> int" where
  "FindUncoveredLines_stats [] funcName (totalLines, coveredLines) = (totalLines, coveredLines)"
| "FindUncoveredLines_stats (line # rest) funcName (totalLines, coveredLines) =
     FindUncoveredLines_stats rest funcName
       (if FunctionName line = funcName
        then (totalLines + 1, if Count line > 0 then coveredLines + 1 else coveredLines)
        else (totalLines, coveredLines))"

text \<open>
  The walk over the functions of one path. \<open>FindUncoveredLines_function\<close> is its body: the
  records appended for one function, none (the \<open>continue\<close>) or one; \<open>sort.Ints\<close> sorts the
  line numbers in increasing order.
\<close>

definition FindUncoveredLines_function ::
  "File \<Rightarrow> (string, int list) gomap \<Rightarrow> (string, string) gomap \<Rightarrow> string \<Rightarrow>
   FunctionUncovered list" where
  "FindUncoveredLines_function fileObj funcUncovered metadata funcName =
     (let uncoveredLines = map_index [] funcUncovered funcName
      in if length uncoveredLines = 0 then []
         else (let (totalLines, coveredLines) =
                     FindUncoveredLines_stats (Lines fileObj) funcName (0, 0);
                   demangledName0 = map_index [] metadata funcName;
                   demangledName = (if demangledName0 = [] then funcName else demangledName0)
               in [\<lparr>FunctionName_unc = funcName,
                    DemangledName_unc = demangledName,
                    UncoveredLineNumbers = sort uncoveredLines,
                    TotalLines_unc = totalLines,
                    CoveredLines = coveredLines\<rparr>]))"

fun FindUncoveredLines_functions ::
  "File \<Rightarrow> (string, int list) gomap \<Rightarrow> (string, string) gomap \<Rightarrow> string list \<Rightarrow>
   FunctionUncovered list \<Rightarrow> FunctionUncovered list" where
  "FindUncoveredLines_functions fileObj funcUncovered metadata [] acc = acc"
| "FindUncoveredLines_functions fileObj funcUncovered metadata (funcName # rest) acc =
     FindUncoveredLines_functions fileObj funcUncovered metadata rest
       (acc @ FindUncoveredLines_function fileObj funcUncovered metadata funcName)"

text \<open>
  The second pass, over the sorted paths. \<open>FindUncoveredLines_file\<close> is its body: the
  file records appended for one path, none (no file object, or no function record) or one.
\<close>

definition FindUncoveredLines_file ::
  "map_order \<Rightarrow> File list \<Rightarrow> (string, (string, int list) gomap) gomap \<Rightarrow>
   (string, (string, string) gomap) gomap \<Rightarrow> string \<Rightarrow> FileUncovered list" where
  "FindUncoveredLines_file w files uncoveredMap funcMetadata filePath =
     (let funcUncovered = map_index [] uncoveredMap filePath
      in case FindUncoveredLines_fileObj files filePath of
           None \<Rightarrow> []
         | Some fileObj \<Rightarrow>
             (let uncoveredFunctions =
                    FindUncoveredLines_functions fileObj funcUncovered
                      (map_index [] funcMetadata filePath)
                      (str_order w (map_keys funcUncovered)) []
              in if length uncoveredFunctions > 0
                 then [\<lparr>FilePath_unc = filePath, UncoveredFunctions = uncoveredFunctions\<rparr>]
                 else []))"

fun FindUncoveredLines_secondPass ::
  "map_order \<Rightarrow> File list \<Rightarrow> (string, (string, int list) gomap) gomap \<Rightarrow>
   (string, (string, string) gomap) gomap \<Rightarrow> string list \<Rightarrow>
   FileUncovered list \<Rightarrow> FileUncovered list" where
  "FindUncoveredLines_secondPass w files uncoveredMap funcMetadata [] result = result"
| "FindUncoveredLines_secondPass w files uncoveredMap funcMetadata (filePath # rest) result =
     FindUncoveredLines_secondPass w files uncoveredMap funcMetadata rest
       (result @ FindUncoveredLines_file w files uncoveredMap funcMetadata filePath)"

definition FindUncoveredLines ::
  "map_order \<Rightarrow> GcovrReport option \<Rightarrow> panic + (UncoveredReport \<times> go_error option)" where
  "FindUncoveredLines w report =
     (case report of
        None \<Rightarrow> Inl NilPointerDereference
      | Some r \<Rightarrow>
          (let (uncoveredMap, funcMetadata) = FindUncoveredLines_firstPass (Files r) ([], []);
               filePaths = FindUncoveredLines_filePaths w uncoveredMap
           in Inr (\<lparr>Files_unc =
                       FindUncoveredLines_secondPass w (Files r) uncoveredMap funcMetadata
                         filePaths []\<rparr>,
                   None)))"

subsection \<open>The earlier revision of uncovered.go\<close>

text \<open>
  An earlier revision of \<open>FindUncoveredLines\<close> returns one flat list of function records,
  each with the path of its file. Its first pass is the one above. Its second pass takes the
  files of the report in order and, for each, walks the map of uncovered lines stored
  for the file's path, counting on the lines of that file. The two record types of that
  revision are not among the sources; their fields are those that the function and its
  formatter use.
\<close>

record FunctionUncovered_v1 =
  File_v1 :: string
  FunctionName_v1 :: string
  DemangledName_v1 :: string
  UncoveredLineNumbers_v1 :: "int list"
  TotalLines_v1 :: int
  CoveredLines_v1 :: int

record UncoveredReport_v1 =
  UncoveredFunctions_v1 :: "FunctionUncovered_v1 list"

definition FindUncoveredLines_v1_function ::
  "File \<Rightarrow> (string, int list) gomap \<Rightarrow> (string, string) gomap \<Rightarrow> string \<Rightarrow>
   FunctionUncovered_v1 list" where
  "FindUncoveredLines_v1_function file funcUncovered metadata funcName =
     (let uncoveredLines = map_index [] funcUncovered funcName
      in if length uncoveredLines = 0 then []
         else (let (totalLines, coveredLines) =
                     FindUncoveredLines_stats (Lines file) funcName (0, 0);
                   demangledName0 = map_index [] metadata funcName;
                   demangledName = (if demangledName0 = [] then funcName else demangledName0)
               in [\<lparr>File_v1 = FilePath file,
                    FunctionName_v1 = funcName,
                    DemangledName_v1 = demangledName,
                    UncoveredLineNumbers_v1 = sort uncoveredLines,
                    TotalLines_v1 = totalLines,
                    CoveredLines_v1 = coveredLines\<rparr>]))"

fun FindUncoveredLines_v1_functions ::
  "File \<Rightarrow> (string, int list) gomap \<Rightarrow> (string, string) gomap \<Rightarrow> string list \<Rightarrow>
   FunctionUncovered_v1 list \<Rightarrow> FunctionUncovered_v1 list" where
  "FindUncoveredLines_v1_functions file funcUncovered metadata [] result = result"
| "FindUncoveredLines_v1_functions file funcUncovered metadata (funcName # rest) result =
     FindUncoveredLines_v1_functions file funcUncovered metadata rest
       (result @ FindUncoveredLines_v1_function file funcUncovered metadata funcName)"

fun FindUncoveredLines_v1_secondPass ::
  "map_order \<Rightarrow> (string, (string, int list) gomap) gomap \<Rightarrow>
   (string, (string, string) gomap) gomap \<Rightarrow> File list \<Rightarrow>
   FunctionUncovered_v1 list \<Rightarrow> FunctionUncovered_v1 list" where
  "FindUncoveredLines_v1_secondPass w uncoveredMap funcMetadata [] result = result"
| "FindUncoveredLines_v1_secondPass w uncoveredMap funcMetadata (file # rest) result =
     (let funcUncovered = map_index [] uncoveredMap (FilePath file)
      in FindUncoveredLines_v1_secondPass w uncoveredMap funcMetadata rest
           (FindUncoveredLines_v1_functions file funcUncovered
              (map_index [] funcMetadata (FilePath file))
              (str_order w (map_keys funcUncovered)) result))"

definition FindUncoveredLines_v1 ::
  "map_order \<Rightarrow> GcovrReport option \<Rightarrow> panic + (UncoveredReport_v1 \<times> go_error option)" where
  "FindUncoveredLines_v1 w report =
     (case report of
        None \<Rightarrow> Inl NilPointerDereference
      | Some r \<Rightarrow>
          (let (uncoveredMap, funcMetadata) = FindUncoveredLines_firstPass (Files r) ([], [])
           in Inr (\<lparr>UncoveredFunctions_v1 =
                       FindUncoveredLines_v1_secondPass w uncoveredMap funcMetadata (Files r) []\<rparr>,
                   None)))"

section \<open>Filter engine (filter.go)\<close>

text \<open>
  Modelled from the spec: the filter engine. Its source file is not among the sources; the
  package's tests give the types (\<open>FilterConfig\<close>, \<open>TargetFile\<close>) and the signatures
  of \<open>ApplyFilter\<close>, \<open>shouldIncludeFunction\<close> and \<open>normalizeFilePath\<close>, and the
  specification gives the behaviour. The filter configuration is passed by pointer, and a
  nil pointer is \<open>None\<close>.
\<close>

record TargetFile =
  File_tgt :: string
  Functions_tgt :: "string list"

record FilterConfig =
  Targets :: "TargetFile list"

text \<open>
  Modelled from the spec: the base identifier of a demangled name, "the substring preceding
  its first \<open>(\<close> parameter-list delimiter, if any"; a name without \<open>(\<close> is its own base
  identifier.
\<close>

definition baseIdentifier :: "string \<Rightarrow> string" where
  "baseIdentifier demangledName = takeWhile (\<lambda>c. c \<noteq> CHR ''('') demangledName"

text \<open>
  Modelled from the spec: \<open>shouldIncludeFunction\<close>, the function test. A function is
  included "if the allowed-set contains (a) the mangled name verbatim, (b) the full
  demangled name verbatim, or (c) the demangled name's base identifier". The allowed set is
  a \<open>map[string]bool\<close>, as in the test of the function.
\<close>

definition shouldIncludeFunction :: "string \<Rightarrow> string \<Rightarrow> (string, bool) gomap \<Rightarrow> bool" where
  "shouldIncludeFunction demangledName mangledName allowedFunctions =
     (if map_index False allowedFunctions mangledName then True
      else if map_index False allowedFunctions demangledName then True
      else map_index False allowedFunctions (baseIdentifier demangledName))"

text \<open>
  Modelled from the spec: the matching index, "a mapping from normalized file path to set
  of allowed function identifiers". Where two targets have the same normalized path the
  later one is stored, as an assignment to a map does.
\<close>

fun allowedFunctions_loop :: "string list \<Rightarrow> (string, bool) gomap \<Rightarrow> (string, bool) gomap" where
  "allowedFunctions_loop [] allowed = allowed"
| "allowedFunctions_loop (fn # rest) allowed =
     allowedFunctions_loop rest (map_assign allowed fn True)"

definition allowedFunctions :: "TargetFile \<Rightarrow> (string, bool) gomap" where
  "allowedFunctions target = allowedFunctions_loop (Functions_tgt target) []"

fun filterIndex_loop ::
  "(string \<Rightarrow> string) \<Rightarrow> TargetFile list \<Rightarrow> (string, (string, bool) gomap) gomap \<Rightarrow>
   (string, (string, bool) gomap) gomap" where
  "filterIndex_loop normalizeFilePath [] index = index"
| "filterIndex_loop normalizeFilePath (target # rest) index =
     filterIndex_loop normalizeFilePath rest
       (map_assign index (normalizeFilePath (File_tgt target)) (allowedFunctions target))"

text \<open>
  Modelled from the spec: the file matching policy. "A report File matches a Target if
  their normalized full paths are equal, or if the report File's base filename (final path
  segment) equals the Target's base filename." The base filename is taken of the
  normalized path, whose separator is \<open>/\<close>. The targets of the index are tried for an equal
  path first and then, in the order of a walk over the index, for an equal base filename.
\<close>

definition baseFilename :: "string \<Rightarrow> string" where
  "baseFilename path = rev (takeWhile (\<lambda>c. c \<noteq> CHR ''/'') (rev path))"

definition matchTarget ::
  "map_order \<Rightarrow> (string, (string, bool) gomap) gomap \<Rightarrow> string \<Rightarrow> (string, bool) gomap option" where
  "matchTarget w index normalizedPath =
     (case map_of index normalizedPath of
        Some allowed \<Rightarrow> Some allowed
      | None \<Rightarrow>
          (case find (\<lambda>targetPath. baseFilename targetPath = baseFilename normalizedPath)
                  (str_order w (map_keys index)) of
             None \<Rightarrow> None
           | Some targetPath \<Rightarrow> map_of index targetPath))"

text \<open>
  Modelled from the spec: the filtering of one matching file. A function is tested with
  its own two names. A line is tested with the demangled name of the entry of the file's
  function list that has the line's function name, and "if no Function entry exists for a
  Line's function name, the Line is excluded".
\<close>

definition lineIncluded :: "Function list \<Rightarrow> (string, bool) gomap \<Rightarrow> Line \<Rightarrow> bool" where
  "lineIncluded functions allowed line =
     (case find (\<lambda>fn. Name fn = FunctionName line) functions of
        None \<Rightarrow> False
      | Some fn \<Rightarrow> shouldIncludeFunction (DemangledName fn) (FunctionName line) allowed)"

definition filterFile :: "(string, bool) gomap \<Rightarrow> File \<Rightarrow> File" where
  "filterFile allowed file =
     \<lparr>FilePath = FilePath file,
      Lines = filter (lineIncluded (Functions file) allowed) (Lines file),
      Functions = filter (\<lambda>fn. shouldIncludeFunction (DemangledName fn) (Name fn) allowed)
                    (Functions file)\<rparr>"

text \<open>
  Modelled from the spec: \<open>ApplyFilter\<close>. "If \<open>filterSpec\<close> is absent or has zero
  targets, returns the input report unchanged." Otherwise the files that match no target
  are dropped, the matching files are filtered, and "a File must contribute to the filtered
  report only if it has at least one matching Function"; the format version "is copied
  through unchanged". The path normalization (\<open>normalizeFilePath\<close>, which the test
  compares with \<open>filepath.ToSlash(filepath.Clean(path))\<close>) is a parameter.
\<close>

fun ApplyFilter_loop ::
  "map_order \<Rightarrow> (string \<Rightarrow> string) \<Rightarrow> (string, (string, bool) gomap) gomap \<Rightarrow> File list \<Rightarrow>
   File list \<Rightarrow> File list" where
  "ApplyFilter_loop w normalizeFilePath index [] filtered = filtered"
| "ApplyFilter_loop w normalizeFilePath index (file # rest) filtered =
     (case matchTarget w index (normalizeFilePath (FilePath file)) of
        None \<Rightarrow> ApplyFilter_loop w normalizeFilePath index rest filtered
      | Some allowed \<Rightarrow>
          (let filteredFile = filterFile allowed file
           in ApplyFilter_loop w normalizeFilePath index rest
                (if length (Functions filteredFile) > 0 then filtered @ [filteredFile]
                 else filtered)))"

definition ApplyFilter ::
  "map_order \<Rightarrow> (string \<Rightarrow> string) \<Rightarrow> GcovrReport \<Rightarrow> FilterConfig option \<Rightarrow> GcovrReport" where
  "ApplyFilter w normalizeFilePath report filterConfig =
     (case filterConfig of
        None \<Rightarrow> report
      | Some config \<Rightarrow>
          if length (Targets config) = 0 then report
          else \<lparr>FormatVersion = FormatVersion report,
                Files = ApplyFilter_loop w normalizeFilePath
                          (filterIndex_loop normalizeFilePath (Targets config) [])
                          (Files report) []\<rparr>)"

section \<open>The resolution of demangled names, as the specification words it\<close>

text \<open>
  The display name of a function in a file: the demangled name of the last entry of the
  file's function list that has the mangled name, and the mangled name itself when there is
  no such entry or when the demangled name of that entry is the empty string.
\<close>

definition spec_demangled_name :: "Function list \<Rightarrow> string \<Rightarrow> string" where
  "spec_demangled_name functions name =
     (case find (\<lambda>fn. Name fn = name) (rev functions) of
        None \<Rightarrow> name
      | Some fn \<Rightarrow> if DemangledName fn = [] then name else DemangledName fn)"

section \<open>Records up to the order of their line numbers\<close>

text \<open>A record of the diff engine with its line numbers put in ascending order.\<close>

definition sorted_lines :: "FunctionCoverageIncrease \<Rightarrow> FunctionCoverageIncrease" where
  "sorted_lines r = r\<lparr>IncreasedLineNumbers := sort (IncreasedLineNumbers r)\<rparr>"

section \<open>Example reports\<close>

text \<open>
  The composite literals of the package's tests: a \<open>Line\<close>, and a \<open>Function\<close> of which
  only the two names are given, the other fields having their zero values.
\<close>

definition mkLine :: "int \<Rightarrow> string \<Rightarrow> int \<Rightarrow> Line" where
  "mkLine n f c = \<lparr>LineNumber = n, FunctionName = f, Count = c\<rparr>"

definition mkFunction :: "string \<Rightarrow> string \<Rightarrow> Function" where
  "mkFunction n d =
     \<lparr>Name = n, DemangledName = d, LineNo = 0, ExecutionCount = 0, BlocksPercent = 0, Pos = []\<rparr>"

text \<open>The test "New file in new report" of \<open>TestComputeCoverageIncrease\<close>.\<close>

definition newfile_base :: GcovrReport where
  "newfile_base = \<lparr>FormatVersion = [], Files = []\<rparr>"

definition newfile_file :: File where
  "newfile_file =
     \<lparr>FilePath = ''new.cpp'',
      Lines = [mkLine 1 ''bar'' 1, mkLine 2 ''bar'' 1],
      Functions = [mkFunction ''bar'' ''bar()'']\<rparr>"

definition newfile_new :: GcovrReport where
  "newfile_new = \<lparr>FormatVersion = [], Files = [newfile_file]\<rparr>"

text \<open>End-to-end scenario 1: the lines 1 and 2 of \<open>foo\<close> become covered.\<close>

definition scenario1_base_file :: File where
  "scenario1_base_file =
     \<lparr>FilePath = ''t.cpp'',
      Lines = [mkLine 1 ''foo'' 0, mkLine 2 ''foo'' 0, mkLine 3 ''foo'' 1],
      Functions = [mkFunction ''foo'' ''foo()'']\<rparr>"

definition scenario1_new_file :: File where
  "scenario1_new_file =
     \<lparr>FilePath = ''t.cpp'',
      Lines = [mkLine 1 ''foo'' 1, mkLine 2 ''foo'' 1, mkLine 3 ''foo'' 1],
      Functions = [mkFunction ''foo'' ''foo()'']\<rparr>"

definition scenario1_base :: GcovrReport where
  "scenario1_base = \<lparr>FormatVersion = [], Files = [scenario1_base_file]\<rparr>"

definition scenario1_new :: GcovrReport where
  "scenario1_new = \<lparr>FormatVersion = [], Files = [scenario1_new_file]\<rparr>"

text \<open>
  A report for the uncovered engine with two uncovered lines of the same line number and
  function name.
\<close>

definition duplicate_line_report :: GcovrReport where
  "duplicate_line_report =
     \<lparr>FormatVersion = [],
      Files = [\<lparr>FilePath = ''a.cpp'',
                Lines = [mkLine 5 ''f'' 0, mkLine 5 ''f'' 0],
                Functions = [mkFunction ''f'' ''f()'']\<rparr>]\<rparr>"

text \<open>End-to-end scenario 2: both lines of \<open>foo\<close> are uncovered.\<close>

definition scenario2_file :: File where
  "scenario2_file =
     \<lparr>FilePath = ''a.cpp'',
      Lines = [mkLine 1 ''foo'' 0, mkLine 2 ''foo'' 0],
      Functions = [mkFunction ''foo'' ''foo()'']\<rparr>"

definition scenario2_report :: GcovrReport where
  "scenario2_report = \<lparr>FormatVersion = [], Files = [scenario2_file]\<rparr>"

text \<open>
  A file whose function list has two entries for \<open>f\<close>, an entry with an empty demangled
  name for \<open>g\<close> and no entry for \<open>h\<close>; its uncovered lines are not in ascending order.
\<close>

definition fallback_file :: File where
  "fallback_file =
     \<lparr>FilePath = ''d.cpp'',
      Lines = [mkLine 9 ''g'' 0, mkLine 1 ''f'' 1, mkLine 4 ''g'' 0, mkLine 3 ''h'' 1,
               mkLine 7 ''g'' 2],
      Functions = [mkFunction ''f'' ''f()'', mkFunction ''g'' [], mkFunction ''f'' ''f(int)'']\<rparr>"

definition fallback_report :: GcovrReport where
  "fallback_report = \<lparr>FormatVersion = [], Files = [fallback_file]\<rparr>"

text \<open>
  Three files, given out of order, of which the last has no uncovered line; and two files
  with the same path, of which only the first has an uncovered line.
\<close>

definition three_files_report :: GcovrReport where
  "three_files_report =
     \<lparr>FormatVersion = [],
      Files = [\<lparr>FilePath = ''b.cpp'', Lines = [mkLine 10 ''func2'' 0],
                Functions = [mkFunction ''func2'' ''func2()'']\<rparr>,
               \<lparr>FilePath = ''a.cpp'', Lines = [mkLine 1 ''func1'' 0, mkLine 2 ''func1'' 0],
                Functions = [mkFunction ''func1'' ''func1()'']\<rparr>,
               \<lparr>FilePath = ''c.cpp'', Lines = [mkLine 1 ''func3'' 4],
                Functions = [mkFunction ''func3'' ''func3()'']\<rparr>]\<rparr>"

text \<open>The test "Multiple functions with increases" of \<open>TestComputeCoverageIncrease\<close>.\<close>

definition two_functions_base :: GcovrReport where
  "two_functions_base =
     \<lparr>FormatVersion = [],
      Files = [\<lparr>FilePath = ''test.cpp'',
                Lines = [mkLine 1 ''foo'' 0, mkLine 5 ''bar'' 0],
                Functions = [mkFunction ''foo'' ''foo()'', mkFunction ''bar'' ''bar()'']\<rparr>]\<rparr>"

definition two_functions_new :: GcovrReport where
  "two_functions_new =
     \<lparr>FormatVersion = [],
      Files = [\<lparr>FilePath = ''test.cpp'',
                Lines = [mkLine 1 ''foo'' 1, mkLine 5 ''bar'' 1],
                Functions = [mkFunction ''foo'' ''foo()'', mkFunction ''bar'' ''bar()'']\<rparr>]\<rparr>"

text \<open>
  The reports and filters of the tests "Filter single file and function", "Empty filter
  config", "Nil filter config" and "Match by filename only" of \<open>TestApplyFilter\<close>.
\<close>

definition demo_report :: GcovrReport where
  "demo_report =
     \<lparr>FormatVersion = ''0.5'',
      Files = [\<lparr>FilePath = ''demo.cc'',
                Lines = [mkLine 1 ''_Z1fv'' 1, mkLine 5 ''_Z1gv'' 0],
                Functions = [mkFunction ''_Z1fv'' ''f()'', mkFunction ''_Z1gv'' ''g()'']\<rparr>]\<rparr>"

definition demo_filter :: FilterConfig where
  "demo_filter = \<lparr>Targets = [\<lparr>File_tgt = ''demo.cc'', Functions_tgt = [''f'']\<rparr>]\<rparr>"

definition path_report :: GcovrReport where
  "path_report =
     \<lparr>FormatVersion = [],
      Files = [\<lparr>FilePath = ''/path/to/demo.cc'',
                Lines = [mkLine 1 ''foo'' 1],
                Functions = [mkFunction ''foo'' ''foo()'']\<rparr>]\<rparr>"

definition path_filter :: FilterConfig where
  "path_filter = \<lparr>Targets = [\<lparr>File_tgt = ''demo.cc'', Functions_tgt = [''foo'']\<rparr>]\<rparr>"

text \<open>
  The reports of \<open>TestComputeCoverageIncrease_DetailedMetrics\<close>,
  \<open>TestComputeCoverageIncrease_NewFunctionInExistingFile\<close>,
  \<open>TestFindUncoveredLines_Statistics\<close> and \<open>TestApplyFilter_LinesFiltering\<close>.
\<close>

definition metrics_base :: GcovrReport where
  "metrics_base =
     \<lparr>FormatVersion = [],
      Files = [\<lparr>FilePath = ''demo.cpp'',
                Lines = [mkLine 1 ''foo'' 1, mkLine 2 ''foo'' 0, mkLine 3 ''foo'' 0,
                         mkLine 4 ''foo'' 1],
                Functions = [mkFunction ''foo'' ''foo()'']\<rparr>]\<rparr>"

definition metrics_new :: GcovrReport where
  "metrics_new =
     \<lparr>FormatVersion = [],
      Files = [\<lparr>FilePath = ''demo.cpp'',
                Lines = [mkLine 1 ''foo'' 1, mkLine 2 ''foo'' 1, mkLine 3 ''foo'' 1,
                         mkLine 4 ''foo'' 1],
                Functions = [mkFunction ''foo'' ''foo()'']\<rparr>]\<rparr>"

definition new_function_base :: GcovrReport where
  "new_function_base =
     \<lparr>FormatVersion = [],
      Files = [\<lparr>FilePath = ''test.cpp'',
                Lines = [mkLine 1 ''foo'' 1],
                Functions = [mkFunction ''foo'' ''foo()'']\<rparr>]\<rparr>"

definition new_function_new :: GcovrReport where
  "new_function_new =
     \<lparr>FormatVersion = [],
      Files = [\<lparr>FilePath = ''test.cpp'',
                Lines = [mkLine 1 ''foo'' 1, mkLine 5 ''bar'' 1, mkLine 6 ''bar'' 1],
                Functions = [mkFunction ''foo'' ''foo()'', mkFunction ''bar'' ''bar()'']\<rparr>]\<rparr>"

definition statistics_report :: GcovrReport where
  "statistics_report =
     \<lparr>FormatVersion = [],
      Files = [\<lparr>FilePath = ''test.cpp'',
                Lines = [mkLine 1 ''foo'' 1, mkLine 2 ''foo'' 0, mkLine 3 ''foo'' 0,
                         mkLine 4 ''foo'' 1, mkLine 5 ''foo'' 1],
                Functions = [mkFunction ''foo'' ''foo()'']\<rparr>]\<rparr>"

definition lines_report :: GcovrReport where
  "lines_report =
     \<lparr>FormatVersion = [],
      Files = [\<lparr>FilePath = ''test.cpp'',
                Lines = [mkLine 1 ''foo'' 1, mkLine 2 ''foo'' 0, mkLine 5 ''bar'' 1,
                         mkLine 6 ''bar'' 1],
                Functions = [mkFunction ''foo'' ''foo()'', mkFunction ''bar'' ''bar()'']\<rparr>]\<rparr>"

definition lines_filter :: FilterConfig where
  "lines_filter = \<lparr>Targets = [\<lparr>File_tgt = ''test.cpp'', Functions_tgt = [''foo'']\<rparr>]\<rparr>"

definition nonexistent_filter :: FilterConfig where
  "nonexistent_filter =
     \<lparr>Targets = [\<lparr>File_tgt = ''nonexistent.cpp'', Functions_tgt = [''foo'']\<rparr>]\<rparr>"

text \<open>
  A new report with two files, the first of which the base report does not have; the paths
  are not in ascending order.
\<close>

definition two_files_base :: GcovrReport where
  "two_files_base =
     \<lparr>FormatVersion = [],
      Files = [\<lparr>FilePath = ''a.cpp'', Lines = [mkLine 1 ''f'' 0],
                Functions = [mkFunction ''f'' ''f()'']\<rparr>]\<rparr>"

definition two_files_new :: GcovrReport where
  "two_files_new =
     \<lparr>FormatVersion = [],
      Files = [\<lparr>FilePath = ''b.cpp'', Lines = [mkLine 1 ''g'' 1, mkLine 2 ''h'' 1],
                Functions = [mkFunction ''g'' ''g()'', mkFunction ''h'' ''h()'']\<rparr>,
               \<lparr>FilePath = ''a.cpp'', Lines = [mkLine 1 ''f'' 1],
                Functions = [mkFunction ''f'' ''f()'']\<rparr>]\<rparr>"

section \<open>Facts about maps and walks\<close>

lemma map_index_assign:
  "map_index z (map_assign m k v) k' = (if k' = k then v else map_index z m k')"
  by (simp add: map_index_def map_assign_def update_conv')

lemma map_has_assign: "map_has (map_assign m k v) k' \<longleftrightarrow> k' = k \<or> map_has m k'"
  by (simp add: map_has_def map_assign_def update_conv')

lemma map_has_keys: "map_has m k \<longleftrightarrow> k \<in> set (map_keys m)"
proof (cases "map_of m k")
  case None
  then have "k \<notin> fst ` set m" by (simp add: map_of_eq_None_iff)
  with None show ?thesis by (simp add: map_has_def map_keys_def)
next
  case (Some v)
  then have "k \<in> fst ` set m" by (metis map_of_eq_None_iff option.distinct(1))
  with Some show ?thesis by (simp add: map_has_def map_keys_def)
qed

lemma find_append:
  "find P (xs @ ys) = (case find P xs of None \<Rightarrow> find P ys | Some x \<Rightarrow> Some x)"
  by (induction xs) auto

lemma map_keys_assign:
  "map_keys (map_assign m k v) = (if k \<in> set (map_keys m) then map_keys m else map_keys m @ [k])"
  by (simp add: map_keys_def map_assign_def update_keys)

lemma map_index_missing: "k \<notin> set (map_keys m) \<Longrightarrow> map_index z m k = z"
  by (simp add: map_index_def map_keys_def map_of_eq_None_iff[THEN iffD2])

lemma distinct_map_keys_assign:
  "distinct (map_keys m) \<Longrightarrow> distinct (map_keys (map_assign m k v))"
  by (simp add: map_keys_assign)

lemma map_of_assign: "map_of (map_assign m k v) = (map_of m)(k \<mapsto> v)"
  by (simp add: map_assign_def update_conv')

lemma map_assign_twice: "map_assign (map_assign m k v) k v' = map_assign m k v'"
  by (simp add: map_assign_def)

lemma map_keys_Nil: "map_keys [] = []" by (simp add: map_keys_def)
lemma map_index_Nil: "map_index z [] k = z" by (simp add: map_index_def)
lemma map_has_Nil: "\<not> map_has [] k" by (simp add: map_has_def)

lemma range_order_ok_str_set: "range_order_ok w \<Longrightarrow> set (str_order w ks) = set ks"
  by (metis range_order_ok_def set_mset_mset)
lemma range_order_ok_int_set: "range_order_ok w \<Longrightarrow> set (int_order w ks) = set ks"
  by (metis range_order_ok_def set_mset_mset)
lemma range_order_ok_str_distinct: "range_order_ok w \<Longrightarrow> distinct (str_order w ks) = distinct ks"
  by (metis range_order_ok_def mset_eq_imp_distinct_iff)
lemma range_order_ok_int_distinct: "range_order_ok w \<Longrightarrow> distinct (int_order w ks) = distinct ks"
  by (metis range_order_ok_def mset_eq_imp_distinct_iff)

lemma range_order_ok_insertion: "range_order_ok insertion_order"
  by (simp add: range_order_ok_def insertion_order_def)
lemma range_order_ok_reverse: "range_order_ok reverse_order"
  by (simp add: range_order_ok_def reverse_order_def)

lemma filter_eq_distinct:
  "distinct ks \<Longrightarrow> filter (\<lambda>k. k = a) ks = (if a \<in> set ks then [a] else [])"
  by (induction ks) auto

subsection \<open>The helpers of the diff engine\<close>

lemma getTotalFunctionLines_loop_eq:
  "getTotalFunctionLines_loop ls fn c = c + int (length (filter (\<lambda>l. FunctionName l = fn) ls))"
  by (induction ls arbitrary: c) auto

lemma getTotalFunctionLines_eq:
  "getTotalFunctionLines f fn = int (length (filter (\<lambda>l. FunctionName l = fn) (Lines f)))"
  by (simp add: getTotalFunctionLines_def getTotalFunctionLines_loop_eq)

lemma buildFunctionNameMap_loop_map_of:
  "map_of (buildFunctionNameMap_loop fns m) k =
     (case find (\<lambda>f. Name f = k) (rev fns) of None \<Rightarrow> map_of m k | Some f \<Rightarrow> Some (DemangledName f))"
  by (induction fns arbitrary: m) (auto simp: map_of_assign find_append split: option.splits)

lemma buildFunctionNameMap_loop_index:
  "map_index [] (buildFunctionNameMap_loop fns []) k =
     (case find (\<lambda>f. Name f = k) (rev fns) of None \<Rightarrow> [] | Some f \<Rightarrow> DemangledName f)"
  by (simp add: map_index_def buildFunctionNameMap_loop_map_of split: option.splits)

lemma processNewFile_group_index:
  "map_index [] (processNewFile_group ls m) fn =
     map_index [] m fn @ map LineNumber (filter (\<lambda>l. FunctionName l = fn \<and> Count l > 0) ls)"
  by (induction ls arbitrary: m) (auto simp: map_index_assign)

lemma processNewFile_group_keys:
  "set (map_keys (processNewFile_group ls m)) =
     set (map_keys m) \<union> {FunctionName l | l. l \<in> set ls \<and> Count l > 0}"
  by (induction ls arbitrary: m) (auto simp: map_keys_assign)

lemma processNewFile_group_distinct:
  "distinct (map_keys m) \<Longrightarrow> distinct (map_keys (processNewFile_group ls m))"
  by (induction ls arbitrary: m) (auto simp: distinct_map_keys_assign)

lemma processNewFile_loop_eq:
  "processNewFile_loop f fl fd ks acc = acc @ map (processNewFile_record f fl fd) ks"
  by (induction ks arbitrary: acc) auto

lemma processNewFile_eq:
  "processNewFile w f =
     map (processNewFile_record f (processNewFile_group (Lines f) [])
            (buildFunctionNameMap_loop (Functions f) []))
         (str_order w (map_keys (processNewFile_group (Lines f) [])))"
  by (simp add: processNewFile_def processNewFile_loop_eq Let_def)

lemma processNewFile_record_name:
  "FunctionName_inc (processNewFile_record f fl fd k) = k"
  by (simp add: processNewFile_record_def Let_def)

lemma compareFunctions_loop_eq:
  "compareFunctions_loop w nf bc nc fns ks acc =
     acc @ concat (map (compareFunctions_function w nf bc nc fns) ks)"
  by (induction ks arbitrary: acc) auto

lemma ComputeCoverageIncrease_loop_acc:
  "ComputeCoverageIncrease_loop w bm fs acc = acc @ ComputeCoverageIncrease_loop w bm fs []"
proof (induction fs arbitrary: acc)
  case Nil
  then show ?case by simp
next
  case (Cons f fs)
  show ?case
    by (cases "map_of bm (FilePath f)")
       (simp_all add: Cons.IH[of "acc @ _"] Cons.IH[of "processNewFile w f"]
          Cons.IH[of "compareFunctions w _ f"])
qed

lemma ComputeCoverageIncrease_loop_append:
  "ComputeCoverageIncrease_loop w bm (fs1 @ fs2) [] =
     ComputeCoverageIncrease_loop w bm fs1 [] @ ComputeCoverageIncrease_loop w bm fs2 []"
proof (induction fs1)
  case Nil
  then show ?case by simp
next
  case (Cons f fs1)
  show ?case
    using Cons.IH
    by (cases "map_of bm (FilePath f)")
       (simp_all add: ComputeCoverageIncrease_loop_acc[of _ _ _ "processNewFile w f"]
          ComputeCoverageIncrease_loop_acc[of _ _ _ "compareFunctions w _ f"])
qed

lemma baseFileMap_loop_map_of:
  "map_of (baseFileMap_loop fs m) p =
     (case find (\<lambda>f. FilePath f = p) (rev fs) of None \<Rightarrow> map_of m p | Some f \<Rightarrow> Some f)"
  by (induction fs arbitrary: m) (auto simp: map_of_assign find_append split: option.splits)


section \<open>The diff engine\<close>

lemma ComputeCoverageIncrease_Some:
  "ComputeCoverageIncrease w (Some base) (Some new) =
     Inr (\<lparr>Increases =
             ComputeCoverageIncrease_loop w (baseFileMap_loop (Files base) []) (Files new) []\<rparr>,
          None)"
  by (simp add: ComputeCoverageIncrease_def)

lemma ComputeCoverageIncrease_loop_new:
  "map_of bm (FilePath f) = None \<Longrightarrow>
   ComputeCoverageIncrease_loop w bm (fs1 @ f # fs2) [] =
     ComputeCoverageIncrease_loop w bm fs1 [] @ processNewFile w f @
     ComputeCoverageIncrease_loop w bm fs2 []"
  by (simp add: ComputeCoverageIncrease_loop_append
        ComputeCoverageIncrease_loop_acc[of _ _ _ "processNewFile w f"])

lemma ComputeCoverageIncrease_loop_both:
  "map_of bm (FilePath f) = Some bf \<Longrightarrow>
   ComputeCoverageIncrease_loop w bm (fs1 @ f # fs2) [] =
     ComputeCoverageIncrease_loop w bm fs1 [] @ compareFunctions w bf f @
     ComputeCoverageIncrease_loop w bm fs2 []"
  by (simp add: ComputeCoverageIncrease_loop_append
        ComputeCoverageIncrease_loop_acc[of _ _ _ "compareFunctions w bf f"])

lemma baseFileMap_absent:
  "p \<notin> FilePath ` set fs \<Longrightarrow> map_of (baseFileMap_loop fs []) p = None"
proof -
  assume "p \<notin> FilePath ` set fs"
  then have "find (\<lambda>f. FilePath f = p) (rev fs) = None"
    by (auto simp: find_None_iff)
  then show ?thesis by (simp add: baseFileMap_loop_map_of)
qed

lemma processNewFile_function:
  assumes "range_order_ok w"
  shows "filter (\<lambda>r. FunctionName_inc r = fn) (processNewFile w f) =
     (if \<exists>l \<in> set (Lines f). FunctionName l = fn \<and> Count l > 0
      then [processNewFile_record f (processNewFile_group (Lines f) [])
              (buildFunctionNameMap_loop (Functions f) []) fn]
      else [])"
proof -
  let ?fl = "processNewFile_group (Lines f) []"
  let ?ks = "str_order w (map_keys ?fl)"
  have d: "distinct ?ks"
    using assms by (simp add: range_order_ok_str_distinct processNewFile_group_distinct map_keys_Nil)
  have s: "set ?ks = {FunctionName l | l. l \<in> set (Lines f) \<and> Count l > 0}"
    using assms by (simp add: range_order_ok_str_set processNewFile_group_keys map_keys_Nil)
  have "filter (\<lambda>r. FunctionName_inc r = fn) (processNewFile w f) =
        map (processNewFile_record f ?fl (buildFunctionNameMap_loop (Functions f) []))
          (filter (\<lambda>k. k = fn) ?ks)"
    by (simp add: processNewFile_eq filter_map comp_def processNewFile_record_name)
  also have "filter (\<lambda>k. k = fn) ?ks = (if fn \<in> set ?ks then [fn] else [])"
    using d by (rule filter_eq_distinct)
  finally show ?thesis using s by auto
qed

text \<open>
  C3. A file of the new report whose path no file of the base report has contributes the
  records of \<open>processNewFile\<close>, between the records of the files before it and those of
  the files after it. Among them, a function with at least one line of count \<open>> 0\<close> in the
  file has exactly one record, with \<open>OldCoveredLines = 0\<close>, with \<open>NewCoveredLines\<close> the
  number of its lines of count \<open>> 0\<close>, and with \<open>IncreasedLineNumbers\<close> the line numbers
  of those lines; a function without such a line has no record.
\<close>

theorem new_file_records:
  assumes "range_order_ok w"
    and "Files new = before @ newFile # after"
    and "FilePath newFile \<notin> FilePath ` set (Files base)"
  shows "(let baseFileMap = baseFileMap_loop (Files base) [] in
          ComputeCoverageIncrease w (Some base) (Some new) =
            Inr (\<lparr>Increases =
                    ComputeCoverageIncrease_loop w baseFileMap before [] @
                    processNewFile w newFile @
                    ComputeCoverageIncrease_loop w baseFileMap after []\<rparr>, None)) \<and>
         (\<forall>funcName.
            let covered = filter (\<lambda>l. FunctionName l = funcName \<and> Count l > 0) (Lines newFile);
                records = filter (\<lambda>r. FunctionName_inc r = funcName) (processNewFile w newFile)
            in if covered = [] then records = []
               else \<exists>r. records = [r] \<and> File_inc r = FilePath newFile \<and>
                      OldCoveredLines r = 0 \<and>
                      NewCoveredLines r = int (length covered) \<and>
                      IncreasedLineNumbers r = map LineNumber covered)"
proof -
  have absent: "map_of (baseFileMap_loop (Files base) []) (FilePath newFile) = None"
    using assms(3) by (rule baseFileMap_absent)
  have first: "ComputeCoverageIncrease w (Some base) (Some new) =
      Inr (\<lparr>Increases =
              ComputeCoverageIncrease_loop w (baseFileMap_loop (Files base) []) before [] @
              processNewFile w newFile @
              ComputeCoverageIncrease_loop w (baseFileMap_loop (Files base) []) after []\<rparr>, None)"
    by (simp add: ComputeCoverageIncrease_Some assms(2) ComputeCoverageIncrease_loop_new[OF absent])
  have second: "if filter (\<lambda>l. FunctionName l = funcName \<and> Count l > 0) (Lines newFile) = []
      then filter (\<lambda>r. FunctionName_inc r = funcName) (processNewFile w newFile) = []
      else \<exists>r. filter (\<lambda>r. FunctionName_inc r = funcName) (processNewFile w newFile) = [r] \<and>
             File_inc r = FilePath newFile \<and> OldCoveredLines r = 0 \<and>
             NewCoveredLines r =
               int (length (filter (\<lambda>l. FunctionName l = funcName \<and> Count l > 0) (Lines newFile))) \<and>
             IncreasedLineNumbers r =
               map LineNumber (filter (\<lambda>l. FunctionName l = funcName \<and> Count l > 0) (Lines newFile))"
    for funcName
  proof (cases "filter (\<lambda>l. FunctionName l = funcName \<and> Count l > 0) (Lines newFile) = []")
    case True
    then have "\<not> (\<exists>l \<in> set (Lines newFile). FunctionName l = funcName \<and> Count l > 0)"
      by (simp add: filter_empty_conv)
    then show ?thesis using True by (simp add: processNewFile_function[OF assms(1)])
  next
    case False
    then have "\<exists>l \<in> set (Lines newFile). FunctionName l = funcName \<and> Count l > 0"
      by (simp add: filter_empty_conv)
    then show ?thesis using False
      by (simp add: processNewFile_function[OF assms(1)] processNewFile_record_def Let_def
            processNewFile_group_index map_index_Nil)
  qed
  show ?thesis using first second by (simp add: Let_def)
qed

theorem new_file_records_witness:
  "range_order_ok reverse_order \<and>
   Files newfile_new = [] @ newfile_file # [] \<and>
   FilePath newfile_file \<notin> FilePath ` set (Files newfile_base) \<and>
   (\<exists>r. filter (\<lambda>r. FunctionName_inc r = ''bar'') (processNewFile reverse_order newfile_file) = [r] \<and>
        File_inc r = ''new.cpp'' \<and> OldCoveredLines r = 0 \<and> NewCoveredLines r = 2 \<and>
        IncreasedLineNumbers r = [1, 2]) \<and>
   filter (\<lambda>r. FunctionName_inc r = ''foo'') (processNewFile reverse_order newfile_file) = []"
proof -
  have h1: "Files newfile_new = [] @ newfile_file # []"
    by (simp add: newfile_new_def)
  have h2: "FilePath newfile_file \<notin> FilePath ` set (Files newfile_base)"
    by (simp add: newfile_base_def)
  note t = new_file_records[OF range_order_ok_reverse h1 h2, THEN conjunct2]
  from t[THEN spec, of "''bar''"] t[THEN spec, of "''foo''"]
  show ?thesis
    using range_order_ok_reverse h1 h2
    by (simp add: Let_def newfile_file_def mkLine_def)
qed

lemma buildLineCoverageMap_loop_index:
  "map_index [] (buildLineCoverageMap_loop ls m) fn =
     foldl (\<lambda>inner l. map_assign inner (LineNumber l) (Count l)) (map_index [] m fn)
       (filter (\<lambda>l. FunctionName l = fn) ls)"
  by (induction ls arbitrary: m)
     (auto simp: Let_def map_index_assign map_has_keys map_index_missing)

lemma buildLineCoverageMap_loop_keys:
  "set (map_keys (buildLineCoverageMap_loop ls m)) = set (map_keys m) \<union> FunctionName ` set ls"
  by (induction ls arbitrary: m) (auto simp: Let_def map_keys_assign)

lemma buildLineCoverageMap_loop_distinct:
  "distinct (map_keys m) \<Longrightarrow> distinct (map_keys (buildLineCoverageMap_loop ls m))"
  by (induction ls arbitrary: m) (auto simp: Let_def distinct_map_keys_assign)

lemma store_lines_keys:
  "set (map_keys (foldl (\<lambda>inner l. map_assign inner (LineNumber l) (Count l)) m ls)) =
     set (map_keys m) \<union> LineNumber ` set ls"
  by (induction ls arbitrary: m) (auto simp: map_keys_assign)

lemma store_lines_distinct:
  "distinct (map_keys m) \<Longrightarrow>
   distinct (map_keys (foldl (\<lambda>inner l. map_assign inner (LineNumber l) (Count l)) m ls))"
  by (induction ls arbitrary: m) (auto simp: distinct_map_keys_assign)

lemma store_lines_map_of:
  "map_of (foldl (\<lambda>inner l. map_assign inner (LineNumber l) (Count l)) m ls) n =
     (case find (\<lambda>l. LineNumber l = n) (rev ls) of
        None \<Rightarrow> map_of m n | Some l \<Rightarrow> Some (Count l))"
  by (induction ls arbitrary: m) (auto simp: map_of_assign find_append split: option.splits)

lemma buildLineCoverageMap_functions:
  "set (map_keys (buildLineCoverageMap f)) = FunctionName ` set (Lines f)"
  by (simp add: buildLineCoverageMap_def buildLineCoverageMap_loop_keys map_keys_Nil)

lemma buildLineCoverageMap_lines:
  "set (map_keys (map_index [] (buildLineCoverageMap f) fn)) =
     {LineNumber l | l. l \<in> set (Lines f) \<and> FunctionName l = fn}"
  by (auto simp: buildLineCoverageMap_def buildLineCoverageMap_loop_index store_lines_keys
        map_index_Nil map_keys_Nil)

lemma buildLineCoverageMap_lines_distinct:
  "distinct (map_keys (map_index [] (buildLineCoverageMap f) fn))"
  by (simp add: buildLineCoverageMap_def buildLineCoverageMap_loop_index store_lines_distinct
        map_index_Nil map_keys_Nil)

lemma buildLineCoverageMap_functions_distinct:
  "distinct (map_keys (buildLineCoverageMap f))"
  by (simp add: buildLineCoverageMap_def buildLineCoverageMap_loop_distinct map_keys_Nil)

lemma find_filter: "find P (filter Q xs) = find (\<lambda>x. Q x \<and> P x) xs"
  by (induction xs) auto

lemma buildLineCoverageMap_count:
  "map_index 0 (map_index [] (buildLineCoverageMap f) fn) n =
     (case find (\<lambda>l. FunctionName l = fn \<and> LineNumber l = n) (rev (Lines f)) of
        None \<Rightarrow> 0 | Some l \<Rightarrow> Count l)"
  by (simp add: buildLineCoverageMap_def buildLineCoverageMap_loop_index map_index_Nil
        map_index_def[of 0] store_lines_map_of rev_filter find_filter
      split: option.splits)

lemma compareFunctions_lines_eq:
  "compareFunctions_lines ex bl nl ks (inc, old, new) =
     (inc @ filter (\<lambda>n. (if ex then map_index 0 bl n else 0) = 0 \<and> map_index 0 nl n > 0) ks,
      old + int (length (filter (\<lambda>n. (if ex then map_index 0 bl n else 0) > 0) ks)),
      new + int (length (filter (\<lambda>n. map_index 0 nl n > 0) ks)))"
  by (induction ks arbitrary: inc old new) (auto simp: Let_def)

lemma base_count_exists:
  "(if map_has bc fn then map_index 0 (map_index [] bc fn) n else 0) =
     map_index 0 (map_index [] bc fn) n"
  by (simp add: map_has_keys map_index_missing map_index_Nil)

lemma compareFunctions_function_eq:
  "compareFunctions_function w nf bc nc fns fn =
     (let newLines = map_index [] nc fn;
          baseLines = map_index [] bc fn;
          ks = int_order w (map_keys newLines);
          increasedLines = filter (\<lambda>n. map_index 0 baseLines n = 0 \<and> map_index 0 newLines n > 0) ks
      in if increasedLines = [] then []
         else [\<lparr>File_inc = FilePath nf,
                FunctionName_inc = fn,
                DemangledName_inc =
                  (if map_index [] fns fn = [] then fn else map_index [] fns fn),
                LinesIncreased = int (length increasedLines),
                TotalLines = getTotalFunctionLines nf fn,
                IncreasedLineNumbers = increasedLines,
                OldCoveredLines = int (length (filter (\<lambda>n. map_index 0 baseLines n > 0) ks)),
                NewCoveredLines = int (length (filter (\<lambda>n. map_index 0 newLines n > 0) ks))\<rparr>])"
  by (simp add: compareFunctions_function_def compareFunctions_lines_eq Let_def base_count_exists)

lemma compareFunctions_eq:
  "compareFunctions w bf nf =
     concat (map (compareFunctions_function w nf (buildLineCoverageMap bf)
                    (buildLineCoverageMap nf) (buildFunctionNameMap nf))
               (str_order w (map_keys (buildLineCoverageMap nf))))"
  by (simp add: compareFunctions_def compareFunctions_loop_eq Let_def)

lemma compareFunctions_function_name:
  "r \<in> set (compareFunctions_function w nf bc nc fns fn) \<Longrightarrow> FunctionName_inc r = fn"
  by (auto simp: compareFunctions_function_eq Let_def split: if_splits)

lemma filter_concat_key:
  assumes "\<And>k r. r \<in> set (g k) \<Longrightarrow> name r = k"
  shows "filter (\<lambda>r. name r = a) (concat (map g ks)) = concat (map g (filter (\<lambda>k. k = a) ks))"
proof (induction ks)
  case Nil
  then show ?case by simp
next
  case (Cons k ks)
  have "filter (\<lambda>r. name r = a) (g k) = (if k = a then g k else [])"
    using assms[of _ k] by (auto simp: filter_empty_conv filter_id_conv)
  with Cons show ?case by simp
qed

lemma compareFunctions_filter:
  assumes "range_order_ok w"
  shows "filter (\<lambda>r. FunctionName_inc r = fn) (compareFunctions w bf nf) =
     (if fn \<in> set (map_keys (buildLineCoverageMap nf))
      then compareFunctions_function w nf (buildLineCoverageMap bf)
             (buildLineCoverageMap nf) (buildFunctionNameMap nf) fn
      else [])"
proof -
  let ?ks = "str_order w (map_keys (buildLineCoverageMap nf))"
  have d: "distinct ?ks"
    using assms by (simp add: range_order_ok_str_distinct buildLineCoverageMap_functions_distinct)
  have s: "set ?ks = set (map_keys (buildLineCoverageMap nf))"
    using assms by (simp add: range_order_ok_str_set)
  show ?thesis
    unfolding compareFunctions_eq
    by (subst filter_concat_key)
       (auto simp: compareFunctions_function_name filter_eq_distinct[OF d] s)
qed

text \<open>
  C1. A file of the new report whose path the base report has contributes the records of
  \<open>compareFunctions\<close> against the base file of that path (the last one, if several have
  it). For every function in the line-coverage map of the new file: a line number of the
  function's new map is newly covered when its base count is \<open>0\<close> (which is also what a
  function or a line missing from the base map counts as) and its new count is \<open>> 0\<close>.
  The line numbers of the new map are pairwise different. (What the maps hold is stated by
  \<open>buildLineCoverageMap_functions\<close>, \<open>buildLineCoverageMap_lines\<close> and
  \<open>buildLineCoverageMap_count\<close>: the function names of the file's lines, the line numbers
  of the lines of a function, and the count of the last line with a function name and a
  line number.)
  If the function has a newly covered line number, it has exactly one record, whose
  \<open>IncreasedLineNumbers\<close> holds exactly the newly covered line numbers, each once, whose
  \<open>OldCoveredLines\<close> is the number of line numbers of the new map with base count \<open>> 0\<close>
  and whose \<open>NewCoveredLines\<close> is the number of those with new count \<open>> 0\<close>. Otherwise it
  has no record.
\<close>

theorem compareFunctions_records:
  assumes "range_order_ok w"
    and "Files new = before @ newFile # after"
    and "find (\<lambda>f. FilePath f = FilePath newFile) (rev (Files base)) = Some baseFile"
  shows "(let baseFileMap = baseFileMap_loop (Files base) [] in
          ComputeCoverageIncrease w (Some base) (Some new) =
            Inr (\<lparr>Increases =
                    ComputeCoverageIncrease_loop w baseFileMap before [] @
                    compareFunctions w baseFile newFile @
                    ComputeCoverageIncrease_loop w baseFileMap after []\<rparr>, None)) \<and>
         (\<forall>funcName \<in> set (map_keys (buildLineCoverageMap newFile)).
            let newLines = map_index [] (buildLineCoverageMap newFile) funcName;
                baseLines = map_index [] (buildLineCoverageMap baseFile) funcName;
                lineNums = map_keys newLines;
                increased = filter (\<lambda>lineNum. map_index 0 baseLines lineNum = 0 \<and>
                                               map_index 0 newLines lineNum > 0) lineNums;
                records = filter (\<lambda>r. FunctionName_inc r = funcName)
                            (compareFunctions w baseFile newFile)
            in distinct lineNums \<and>
               (if increased = [] then records = []
                else \<exists>r. records = [r] \<and>
                       mset (IncreasedLineNumbers r) = mset increased \<and>
                       OldCoveredLines r =
                         int (length (filter (\<lambda>lineNum. map_index 0 baseLines lineNum > 0)
                                        lineNums)) \<and>
                       NewCoveredLines r =
                         int (length (filter (\<lambda>lineNum. map_index 0 newLines lineNum > 0)
                                        lineNums))))"
proof -
  have present: "map_of (baseFileMap_loop (Files base) []) (FilePath newFile) = Some baseFile"
    using assms(3) by (simp add: baseFileMap_loop_map_of)
  have first: "ComputeCoverageIncrease w (Some base) (Some new) =
      Inr (\<lparr>Increases =
              ComputeCoverageIncrease_loop w (baseFileMap_loop (Files base) []) before [] @
              compareFunctions w baseFile newFile @
              ComputeCoverageIncrease_loop w (baseFileMap_loop (Files base) []) after []\<rparr>, None)"
    by (simp add: ComputeCoverageIncrease_Some assms(2) ComputeCoverageIncrease_loop_both[OF present])
  have second: "let newLines = map_index [] (buildLineCoverageMap newFile) funcName;
                baseLines = map_index [] (buildLineCoverageMap baseFile) funcName;
                lineNums = map_keys newLines;
                increased = filter (\<lambda>lineNum. map_index 0 baseLines lineNum = 0 \<and>
                                               map_index 0 newLines lineNum > 0) lineNums;
                records = filter (\<lambda>r. FunctionName_inc r = funcName)
                            (compareFunctions w baseFile newFile)
            in distinct lineNums \<and>
               (if increased = [] then records = []
                else \<exists>r. records = [r] \<and>
                       mset (IncreasedLineNumbers r) = mset increased \<and>
                       OldCoveredLines r =
                         int (length (filter (\<lambda>lineNum. map_index 0 baseLines lineNum > 0)
                                        lineNums)) \<and>
                       NewCoveredLines r =
                         int (length (filter (\<lambda>lineNum. map_index 0 newLines lineNum > 0)
                                        lineNums)))"
    if fn: "funcName \<in> set (map_keys (buildLineCoverageMap newFile))" for funcName
  proof -
    let ?nl = "map_index [] (buildLineCoverageMap newFile) funcName"
    let ?ks = "int_order w (map_keys ?nl)"
    have ok: "mset (int_order w ks) = mset ks" for ks
      using assms(1) by (simp add: range_order_ok_def)
    have m: "mset (filter P ?ks) = mset (filter P (map_keys ?nl))" for P
      by (simp add: ok)
    have len: "length (filter P ?ks) = length (filter P (map_keys ?nl))" for P
      using m[of P] by (metis size_mset)
    have empty: "filter P ?ks = [] \<longleftrightarrow> filter P (map_keys ?nl) = []" for P
      using len[of P] by (metis length_0_conv)
    show ?thesis
      using fn
      by (simp add: Let_def compareFunctions_filter[OF assms(1)] compareFunctions_function_eq
            empty len ok buildLineCoverageMap_lines_distinct)
  qed
  show ?thesis
    unfolding Let_def using first second[unfolded Let_def] by blast
qed

lemma scenario1_new_map:
  "buildLineCoverageMap scenario1_new_file = [(''foo'', [(1, 1), (2, 1), (3, 1)])]"
  by (simp add: buildLineCoverageMap_def scenario1_new_file_def mkLine_def Let_def
        map_has_def map_index_def map_assign_def)

lemma scenario1_base_map:
  "buildLineCoverageMap scenario1_base_file = [(''foo'', [(1, 0), (2, 0), (3, 1)])]"
  by (simp add: buildLineCoverageMap_def scenario1_base_file_def mkLine_def Let_def
        map_has_def map_index_def map_assign_def)

theorem compareFunctions_records_witness:
  "range_order_ok reverse_order \<and>
   Files scenario1_new = [] @ scenario1_new_file # [] \<and>
   find (\<lambda>f. FilePath f = FilePath scenario1_new_file) (rev (Files scenario1_base)) =
     Some scenario1_base_file \<and>
   ''foo'' \<in> set (map_keys (buildLineCoverageMap scenario1_new_file)) \<and>
   (\<exists>r. filter (\<lambda>r. FunctionName_inc r = ''foo'')
          (compareFunctions reverse_order scenario1_base_file scenario1_new_file) = [r] \<and>
        mset (IncreasedLineNumbers r) = mset [1, 2] \<and>
        OldCoveredLines r = 1 \<and> NewCoveredLines r = 3)"
proof -
  have h1: "Files scenario1_new = [] @ scenario1_new_file # []"
    by (simp add: scenario1_new_def)
  have h2: "find (\<lambda>f. FilePath f = FilePath scenario1_new_file) (rev (Files scenario1_base)) =
     Some scenario1_base_file"
    by (simp add: scenario1_base_def scenario1_base_file_def scenario1_new_file_def)
  have h3: "''foo'' \<in> set (map_keys (buildLineCoverageMap scenario1_new_file))"
    by (simp add: scenario1_new_map map_keys_def)
  note t = compareFunctions_records[OF range_order_ok_reverse h1 h2, THEN conjunct2, THEN bspec, OF h3]
  show ?thesis
    using t h1 h2 h3 range_order_ok_reverse
    by (simp add: Let_def scenario1_new_map scenario1_base_map map_index_def map_keys_def)
qed

section \<open>The uncovered engine\<close>

lemma FindUncoveredLines_collect_index:
  "map_index [] (FindUncoveredLines_collect ls m) fn =
     map_index [] m fn @ map LineNumber (filter (\<lambda>l. FunctionName l = fn \<and> Count l = 0) ls)"
  by (induction ls arbitrary: m)
     (auto simp: Let_def map_index_assign map_has_keys map_index_missing)

lemma FindUncoveredLines_collect_keys:
  "set (map_keys (FindUncoveredLines_collect ls m)) =
     set (map_keys m) \<union> {FunctionName l | l. l \<in> set ls \<and> Count l = 0}"
  by (induction ls arbitrary: m) (auto simp: Let_def map_keys_assign)

lemma FindUncoveredLines_collect_distinct:
  "distinct (map_keys m) \<Longrightarrow> distinct (map_keys (FindUncoveredLines_collect ls m))"
  by (induction ls arbitrary: m) (auto simp: Let_def distinct_map_keys_assign)

lemma FindUncoveredLines_collect_empty:
  "FindUncoveredLines_collect ls [] = [] \<longleftrightarrow> (\<forall>l \<in> set ls. Count l \<noteq> 0)"
proof -
  have "FindUncoveredLines_collect ls [] = [] \<longleftrightarrow>
        set (map_keys (FindUncoveredLines_collect ls [])) = {}"
    by (simp add: map_keys_def)
  then show ?thesis by (auto simp: FindUncoveredLines_collect_keys map_keys_Nil)
qed

lemma FindUncoveredLines_firstPass_uncovered:
  "map_of (fst (FindUncoveredLines_firstPass fs (um, fm))) p =
     (case find (\<lambda>f. FilePath f = p) (rev fs) of
        None \<Rightarrow> map_of um p
      | Some f \<Rightarrow> Some (FindUncoveredLines_collect (Lines f) []))"
  by (induction fs arbitrary: um fm)
     (auto simp: Let_def map_index_assign map_assign_twice map_of_assign find_append
           split: option.splits)

lemma FindUncoveredLines_firstPass_metadata:
  "map_of (snd (FindUncoveredLines_firstPass fs (um, fm))) p =
     (case find (\<lambda>f. FilePath f = p) (rev fs) of
        None \<Rightarrow> map_of fm p
      | Some f \<Rightarrow> Some (buildFunctionNameMap_loop (Functions f) []))"
  by (induction fs arbitrary: um fm)
     (auto simp: Let_def map_index_assign map_assign_twice map_of_assign find_append
           split: option.splits)

lemma FindUncoveredLines_firstPass_keys:
  "set (map_keys (fst (FindUncoveredLines_firstPass fs (um, fm)))) =
     set (map_keys um) \<union> FilePath ` set fs"
  by (induction fs arbitrary: um fm)
     (auto simp: Let_def map_assign_twice map_keys_assign map_index_assign)

lemma FindUncoveredLines_firstPass_distinct:
  "distinct (map_keys um) \<Longrightarrow>
   distinct (map_keys (fst (FindUncoveredLines_firstPass fs (um, fm))))"
  by (induction fs arbitrary: um fm)
     (auto simp: Let_def map_assign_twice distinct_map_keys_assign map_index_assign)

lemma FindUncoveredLines_fileObj_find:
  "FindUncoveredLines_fileObj fs p = find (\<lambda>f. FilePath f = p) fs"
  by (induction fs) auto

lemma FindUncoveredLines_stats_eq:
  "FindUncoveredLines_stats ls fn (t, c) =
     (t + int (length (filter (\<lambda>l. FunctionName l = fn) ls)),
      c + int (length (filter (\<lambda>l. FunctionName l = fn \<and> Count l > 0) ls)))"
  by (induction ls arbitrary: t c) auto

lemma FindUncoveredLines_functions_eq:
  "FindUncoveredLines_functions fo fu md ks acc =
     acc @ concat (map (FindUncoveredLines_function fo fu md) ks)"
  by (induction ks arbitrary: acc) auto

lemma FindUncoveredLines_secondPass_eq:
  "FindUncoveredLines_secondPass w fs um fm ps acc =
     acc @ concat (map (FindUncoveredLines_file w fs um fm) ps)"
  by (induction ps arbitrary: acc) auto

lemma FindUncoveredLines_function_eq:
  "FindUncoveredLines_function fo fu md fn =
     (if map_index [] fu fn = [] then []
      else [\<lparr>FunctionName_unc = fn,
             DemangledName_unc = (if map_index [] md fn = [] then fn else map_index [] md fn),
             UncoveredLineNumbers = sort (map_index [] fu fn),
             TotalLines_unc = int (length (filter (\<lambda>l. FunctionName l = fn) (Lines fo))),
             CoveredLines =
               int (length (filter (\<lambda>l. FunctionName l = fn \<and> Count l > 0) (Lines fo)))\<rparr>])"
  by (simp add: FindUncoveredLines_function_def FindUncoveredLines_stats_eq Let_def)

lemma FindUncoveredLines_Some:
  "FindUncoveredLines w (Some r) =
     Inr (\<lparr>Files_unc =
             concat (map (FindUncoveredLines_file w (Files r)
                            (fst (FindUncoveredLines_firstPass (Files r) ([], [])))
                            (snd (FindUncoveredLines_firstPass (Files r) ([], []))))
                       (FindUncoveredLines_filePaths w
                          (fst (FindUncoveredLines_firstPass (Files r) ([], [])))))\<rparr>,
          None)"
  by (simp add: FindUncoveredLines_def FindUncoveredLines_secondPass_eq Let_def split: prod.splits)

lemma spec_demangled_name_index:
  "(if map_index [] (buildFunctionNameMap_loop fns []) k = [] then k
    else map_index [] (buildFunctionNameMap_loop fns []) k) = spec_demangled_name fns k"
  by (simp add: buildFunctionNameMap_loop_index spec_demangled_name_def split: option.splits)

lemma FindUncoveredLines_file_record:
  assumes "fu \<in> set (FindUncoveredLines_file w files um fm p)"
    and "u \<in> set (UncoveredFunctions fu)"
  shows "FilePath_unc fu = p \<and>
         (\<exists>fo. find (\<lambda>f. FilePath f = p) files = Some fo \<and>
            FindUncoveredLines_function fo (map_index [] um p) (map_index [] fm p)
              (FunctionName_unc u) = [u])"
proof (cases "find (\<lambda>f. FilePath f = p) files")
  case None
  with assms(1) show ?thesis
    by (simp add: FindUncoveredLines_file_def FindUncoveredLines_fileObj_find)
next
  case (Some fo)
  let ?g = "FindUncoveredLines_function fo (map_index [] um p) (map_index [] fm p)"
  from assms(1) Some have fu: "FilePath_unc fu = p"
    and ufs: "UncoveredFunctions fu = concat (map ?g (str_order w (map_keys (map_index [] um p))))"
    by (auto simp: FindUncoveredLines_file_def FindUncoveredLines_fileObj_find Let_def
          FindUncoveredLines_functions_eq split: if_splits)
  from assms(2) ufs obtain k where "u \<in> set (?g k)" by auto
  then have "?g (FunctionName_unc u) = [u]"
    by (auto simp: FindUncoveredLines_function_eq split: if_splits)
  with fu Some show ?thesis by simp
qed

lemma FindUncoveredLines_filePaths_set:
  "p \<in> set (FindUncoveredLines_filePaths w um) \<Longrightarrow> map_index [] um p \<noteq> []"
  by (simp add: FindUncoveredLines_filePaths_def)

lemma FindUncoveredLines_firstPass_index:
  assumes "map_index [] (fst (FindUncoveredLines_firstPass fs ([], []))) p \<noteq> []"
  shows "\<exists>f. find (\<lambda>f. FilePath f = p) (rev fs) = Some f \<and>
           map_index [] (fst (FindUncoveredLines_firstPass fs ([], []))) p =
             FindUncoveredLines_collect (Lines f) [] \<and>
           map_index [] (snd (FindUncoveredLines_firstPass fs ([], []))) p =
             buildFunctionNameMap_loop (Functions f) []"
proof (cases "find (\<lambda>f. FilePath f = p) (rev fs)")
  case None
  then have "map_of (fst (FindUncoveredLines_firstPass fs ([], []))) p = None"
    by (simp add: FindUncoveredLines_firstPass_uncovered)
  with assms show ?thesis by (simp add: map_index_def)
next
  case (Some f)
  then show ?thesis
    by (simp add: map_index_def FindUncoveredLines_firstPass_uncovered
          FindUncoveredLines_firstPass_metadata)
qed

lemma FindUncoveredLines_records:
  assumes "FindUncoveredLines w (Some report) = Inr (res, e)"
    and "fu \<in> set (Files_unc res)"
    and "u \<in> set (UncoveredFunctions fu)"
  shows "\<exists>firstFile lastFile.
           find (\<lambda>f. FilePath f = FilePath_unc fu) (Files report) = Some firstFile \<and>
           find (\<lambda>f. FilePath f = FilePath_unc fu) (rev (Files report)) = Some lastFile \<and>
           UncoveredLineNumbers u =
             sort (map LineNumber
                     (filter (\<lambda>l. FunctionName l = FunctionName_unc u \<and> Count l = 0)
                        (Lines lastFile))) \<and>
           UncoveredLineNumbers u \<noteq> [] \<and>
           DemangledName_unc u = spec_demangled_name (Functions lastFile) (FunctionName_unc u) \<and>
           TotalLines_unc u =
             int (length (filter (\<lambda>l. FunctionName l = FunctionName_unc u) (Lines firstFile))) \<and>
           CoveredLines u =
             int (length (filter (\<lambda>l. FunctionName l = FunctionName_unc u \<and> Count l > 0)
                            (Lines firstFile)))"
proof -
  let ?um = "fst (FindUncoveredLines_firstPass (Files report) ([], []))"
  let ?fm = "snd (FindUncoveredLines_firstPass (Files report) ([], []))"
  from assms(1,2) obtain p where p: "p \<in> set (FindUncoveredLines_filePaths w ?um)"
    and fu: "fu \<in> set (FindUncoveredLines_file w (Files report) ?um ?fm p)"
    by (auto simp: FindUncoveredLines_Some)
  from FindUncoveredLines_file_record[OF fu assms(3)] obtain fo
    where path: "FilePath_unc fu = p"
      and fo: "find (\<lambda>f. FilePath f = p) (Files report) = Some fo"
      and u: "FindUncoveredLines_function fo (map_index [] ?um p) (map_index [] ?fm p)
                (FunctionName_unc u) = [u]"
    by blast
  from FindUncoveredLines_firstPass_index[OF FindUncoveredLines_filePaths_set[OF p]] obtain lf
    where lf: "find (\<lambda>f. FilePath f = p) (rev (Files report)) = Some lf"
      and um: "map_index [] ?um p = FindUncoveredLines_collect (Lines lf) []"
      and fm: "map_index [] ?fm p = buildFunctionNameMap_loop (Functions lf) []"
    by blast
  let ?lines = "map LineNumber
          (filter (\<lambda>l. FunctionName l = FunctionName_unc u \<and> Count l = 0) (Lines lf))"
  from u have eq: "u = \<lparr>FunctionName_unc = FunctionName_unc u,
             DemangledName_unc = spec_demangled_name (Functions lf) (FunctionName_unc u),
             UncoveredLineNumbers = sort ?lines,
             TotalLines_unc =
               int (length (filter (\<lambda>l. FunctionName l = FunctionName_unc u) (Lines fo))),
             CoveredLines =
               int (length (filter (\<lambda>l. FunctionName l = FunctionName_unc u \<and> Count l > 0)
                              (Lines fo)))\<rparr>"
    and ne: "?lines \<noteq> []"
    unfolding um fm FindUncoveredLines_function_eq spec_demangled_name_index
      FindUncoveredLines_collect_index map_index_Nil
    by (simp_all split: if_splits)
  have f1: "UncoveredLineNumbers u = sort ?lines"
    using arg_cong[OF eq, of UncoveredLineNumbers] by simp
  have "length (sort ?lines) \<noteq> 0" using ne by simp
  then have f2: "UncoveredLineNumbers u \<noteq> []"
    unfolding f1 by (metis list.size(3))
  have f3: "DemangledName_unc u = spec_demangled_name (Functions lf) (FunctionName_unc u)"
    using arg_cong[OF eq, of DemangledName_unc] by simp
  have f4: "TotalLines_unc u =
               int (length (filter (\<lambda>l. FunctionName l = FunctionName_unc u) (Lines fo)))"
    using arg_cong[OF eq, of TotalLines_unc] by simp
  have f5: "CoveredLines u =
               int (length (filter (\<lambda>l. FunctionName l = FunctionName_unc u \<and> Count l > 0)
                              (Lines fo)))"
    using arg_cong[OF eq, of CoveredLines] by simp
  from f1 f2 f3 f4 f5 fo lf path show ?thesis by blast
qed

subsection \<open>Evaluation on the example reports\<close>

lemmas map_evals = map_index_def map_has_def map_assign_def map_keys_def Let_def
  insertion_order_def reverse_order_def mkLine_def mkFunction_def

lemmas uncovered_evals = FindUncoveredLines_def FindUncoveredLines_filePaths_def
  FindUncoveredLines_file_def FindUncoveredLines_function_def

lemma duplicate_line_result:
  "FindUncoveredLines insertion_order (Some duplicate_line_report) =
     Inr (\<lparr>Files_unc =
             [\<lparr>FilePath_unc = ''a.cpp'',
               UncoveredFunctions =
                 [\<lparr>FunctionName_unc = ''f'', DemangledName_unc = ''f()'',
                   UncoveredLineNumbers = [5, 5], TotalLines_unc = 2, CoveredLines = 0\<rparr>]\<rparr>]\<rparr>,
          None)"
  by (simp add: duplicate_line_report_def uncovered_evals map_evals)

lemma scenario2_result:
  "FindUncoveredLines reverse_order (Some scenario2_report) =
     Inr (\<lparr>Files_unc =
             [\<lparr>FilePath_unc = ''a.cpp'',
               UncoveredFunctions =
                 [\<lparr>FunctionName_unc = ''foo'', DemangledName_unc = ''foo()'',
                   UncoveredLineNumbers = [1, 2], TotalLines_unc = 2, CoveredLines = 0\<rparr>]\<rparr>]\<rparr>,
          None)"
  by (simp add: scenario2_report_def scenario2_file_def uncovered_evals map_evals)

lemmas diff_evals = ComputeCoverageIncrease_def processNewFile_def processNewFile_record_def
  compareFunctions_def compareFunctions_function_def buildLineCoverageMap_def
  buildFunctionNameMap_def getTotalFunctionLines_def

lemma fallback_increase_result:
  "ComputeCoverageIncrease insertion_order (Some newfile_base) (Some fallback_report) =
     Inr (\<lparr>Increases =
             [\<lparr>File_inc = ''d.cpp'', FunctionName_inc = ''f'', DemangledName_inc = ''f(int)'',
               LinesIncreased = 1, TotalLines = 1, IncreasedLineNumbers = [1],
               OldCoveredLines = 0, NewCoveredLines = 1\<rparr>,
              \<lparr>File_inc = ''d.cpp'', FunctionName_inc = ''h'', DemangledName_inc = ''h'',
               LinesIncreased = 1, TotalLines = 1, IncreasedLineNumbers = [3],
               OldCoveredLines = 0, NewCoveredLines = 1\<rparr>,
              \<lparr>File_inc = ''d.cpp'', FunctionName_inc = ''g'', DemangledName_inc = ''g'',
               LinesIncreased = 1, TotalLines = 3, IncreasedLineNumbers = [7],
               OldCoveredLines = 0, NewCoveredLines = 1\<rparr>]\<rparr>,
          None)"
  by (simp add: fallback_report_def fallback_file_def newfile_base_def diff_evals map_evals)

lemma fallback_uncovered_result:
  "FindUncoveredLines insertion_order (Some fallback_report) =
     Inr (\<lparr>Files_unc =
             [\<lparr>FilePath_unc = ''d.cpp'',
               UncoveredFunctions =
                 [\<lparr>FunctionName_unc = ''g'', DemangledName_unc = ''g'',
                   UncoveredLineNumbers = [4, 9], TotalLines_unc = 3, CoveredLines = 1\<rparr>]\<rparr>]\<rparr>,
          None)"
  by (simp add: fallback_report_def fallback_file_def uncovered_evals map_evals)

lemma three_files_result:
  "FindUncoveredLines insertion_order (Some three_files_report) =
     Inr (\<lparr>Files_unc =
             [\<lparr>FilePath_unc = ''a.cpp'',
               UncoveredFunctions =
                 [\<lparr>FunctionName_unc = ''func1'', DemangledName_unc = ''func1()'',
                   UncoveredLineNumbers = [1, 2], TotalLines_unc = 2, CoveredLines = 0\<rparr>]\<rparr>,
              \<lparr>FilePath_unc = ''b.cpp'',
               UncoveredFunctions =
                 [\<lparr>FunctionName_unc = ''func2'', DemangledName_unc = ''func2()'',
                   UncoveredLineNumbers = [10], TotalLines_unc = 1, CoveredLines = 0\<rparr>]\<rparr>]\<rparr>,
          None)"
  by code_simp

subsection \<open>The counts of a record\<close>

lemma find_rev_distinct:
  "distinct (map key xs) \<Longrightarrow> find (\<lambda>x. key x = k) (rev xs) = find (\<lambda>x. key x = k) xs"
proof (induction xs)
  case Nil
  then show ?case by simp
next
  case (Cons x xs)
  show ?case
  proof (cases "key x = k")
    case True
    from Cons.prems have "key x \<notin> key ` set xs" by simp
    with True have "\<forall>y \<in> set xs. key y \<noteq> k" by (metis imageI)
    then have "find (\<lambda>x. key x = k) (rev xs) = None" by (simp add: find_None_iff)
    with True show ?thesis by (simp add: find_append)
  next
    case False
    with Cons show ?thesis by (simp add: find_append split: option.splits)
  qed
qed

lemma find_SomeD: "find P xs = Some x \<Longrightarrow> x \<in> set xs \<and> P x"
  by (induction xs) (auto split: if_splits)

lemma count_split:
  assumes "\<forall>l \<in> set ls. Count l \<ge> 0"
  shows "length (filter (\<lambda>l. FunctionName l = fn) ls) =
         length (filter (\<lambda>l. FunctionName l = fn \<and> Count l > 0) ls) +
         length (filter (\<lambda>l. FunctionName l = fn \<and> Count l = 0) ls)"
  using assms by (induction ls) auto

text \<open>
  C2. In a report of the data model, where a file is identified by its path (the paths of
  the files are pairwise different) and the count of a line is a non-negative integer,
  every record of \<open>FindUncoveredLines\<close> has
  \<open>TotalLines = CoveredLines + len(UncoveredLineNumbers)\<close>, where \<open>TotalLines\<close> is the
  number of lines of the record's file with the record's function name and \<open>CoveredLines\<close>
  the number of those with count \<open>> 0\<close>.
\<close>

theorem uncovered_counts_add_up:
  assumes "FindUncoveredLines w (Some report) = Inr (res, e)"
    and "distinct (map FilePath (Files report))"
    and "\<forall>f \<in> set (Files report). \<forall>l \<in> set (Lines f). Count l \<ge> 0"
    and "fu \<in> set (Files_unc res)"
    and "u \<in> set (UncoveredFunctions fu)"
  shows "TotalLines_unc u = CoveredLines u + int (length (UncoveredLineNumbers u)) \<and>
         (\<exists>file \<in> set (Files report).
            FilePath file = FilePath_unc fu \<and>
            TotalLines_unc u =
              int (length (filter (\<lambda>l. FunctionName l = FunctionName_unc u) (Lines file))) \<and>
            CoveredLines u =
              int (length (filter (\<lambda>l. FunctionName l = FunctionName_unc u \<and> Count l > 0)
                             (Lines file))))"
proof -
  from FindUncoveredLines_records[OF assms(1,4,5)] obtain firstFile lastFile
    where ff: "find (\<lambda>f. FilePath f = FilePath_unc fu) (Files report) = Some firstFile"
      and lf: "find (\<lambda>f. FilePath f = FilePath_unc fu) (rev (Files report)) = Some lastFile"
      and un: "UncoveredLineNumbers u =
             sort (map LineNumber
                     (filter (\<lambda>l. FunctionName l = FunctionName_unc u \<and> Count l = 0)
                        (Lines lastFile)))"
      and tl: "TotalLines_unc u =
             int (length (filter (\<lambda>l. FunctionName l = FunctionName_unc u) (Lines firstFile)))"
      and cl: "CoveredLines u =
             int (length (filter (\<lambda>l. FunctionName l = FunctionName_unc u \<and> Count l > 0)
                            (Lines firstFile)))"
    by blast
  from ff lf assms(2) have same: "lastFile = firstFile"
    by (simp add: find_rev_distinct)
  from find_SomeD[OF ff] have mem: "firstFile \<in> set (Files report)"
    and path: "FilePath firstFile = FilePath_unc fu" by simp_all
  from mem assms(3) have "\<forall>l \<in> set (Lines firstFile). Count l \<ge> 0" by blast
  from count_split[OF this, of "FunctionName_unc u"]
  have "TotalLines_unc u = CoveredLines u + int (length (UncoveredLineNumbers u))"
    by (simp add: un tl cl same)
  with mem path tl cl show ?thesis by blast
qed

theorem uncovered_counts_add_up_witness:
  "FindUncoveredLines reverse_order (Some scenario2_report) =
     Inr (\<lparr>Files_unc =
             [\<lparr>FilePath_unc = ''a.cpp'',
               UncoveredFunctions =
                 [\<lparr>FunctionName_unc = ''foo'', DemangledName_unc = ''foo()'',
                   UncoveredLineNumbers = [1, 2], TotalLines_unc = 2, CoveredLines = 0\<rparr>]\<rparr>]\<rparr>,
          None) \<and>
   distinct (map FilePath (Files scenario2_report)) \<and>
   list_all (\<lambda>f. list_all (\<lambda>l. Count l \<ge> 0) (Lines f)) (Files scenario2_report) \<and>
   (2 :: int) = 0 + int (length [1, 2 :: int]) \<and>
   (\<exists>file \<in> set (Files scenario2_report). FilePath file = ''a.cpp'' \<and>
      (2 :: int) = int (length (filter (\<lambda>l. FunctionName l = ''foo'') (Lines file))) \<and>
      (0 :: int) = int (length (filter (\<lambda>l. FunctionName l = ''foo'' \<and> Count l > 0) (Lines file))))"
proof -
  let ?u = "\<lparr>FunctionName_unc = ''foo'', DemangledName_unc = ''foo()'',
             UncoveredLineNumbers = [1, 2], TotalLines_unc = 2, CoveredLines = 0\<rparr>"
  let ?fu = "\<lparr>FilePath_unc = ''a.cpp'', UncoveredFunctions = [?u]\<rparr>"
  have h2: "distinct (map FilePath (Files scenario2_report))"
    by (simp add: scenario2_report_def)
  have h3: "\<forall>f \<in> set (Files scenario2_report). \<forall>l \<in> set (Lines f). Count l \<ge> 0"
    by (simp add: scenario2_report_def scenario2_file_def mkLine_def)
  have h4: "?fu \<in> set (Files_unc \<lparr>Files_unc = [?fu]\<rparr>)" by simp
  have h5: "?u \<in> set (UncoveredFunctions ?fu)" by simp
  from uncovered_counts_add_up[OF scenario2_result h2 h3 h4 h5]
  show ?thesis
    using scenario2_result h2 h3 by (simp add: list_all_iff)
qed

text \<open>
  The earlier revision of \<open>FindUncoveredLines\<close> has the same property on the reports of
  the data model.
\<close>

lemma FindUncoveredLines_v1_functions_eq:
  "FindUncoveredLines_v1_functions f fu md ks acc =
     acc @ concat (map (FindUncoveredLines_v1_function f fu md) ks)"
  by (induction ks arbitrary: acc) auto

lemma FindUncoveredLines_v1_secondPass_eq:
  "FindUncoveredLines_v1_secondPass w um fm fs acc =
     acc @ concat (map (\<lambda>f. concat (map (FindUncoveredLines_v1_function f
                                           (map_index [] um (FilePath f))
                                           (map_index [] fm (FilePath f)))
                                      (str_order w (map_keys (map_index [] um (FilePath f))))))
                     fs)"
  by (induction fs arbitrary: acc) (auto simp: Let_def FindUncoveredLines_v1_functions_eq)

lemma FindUncoveredLines_v1_function_eq:
  "FindUncoveredLines_v1_function f fu md fn =
     (if map_index [] fu fn = [] then []
      else [\<lparr>File_v1 = FilePath f,
             FunctionName_v1 = fn,
             DemangledName_v1 = (if map_index [] md fn = [] then fn else map_index [] md fn),
             UncoveredLineNumbers_v1 = sort (map_index [] fu fn),
             TotalLines_v1 = int (length (filter (\<lambda>l. FunctionName l = fn) (Lines f))),
             CoveredLines_v1 =
               int (length (filter (\<lambda>l. FunctionName l = fn \<and> Count l > 0) (Lines f)))\<rparr>])"
  by (simp add: FindUncoveredLines_v1_function_def FindUncoveredLines_stats_eq Let_def)

lemma FindUncoveredLines_v1_records:
  assumes "FindUncoveredLines_v1 w (Some report) = Inr (res, e)"
    and "u \<in> set (UncoveredFunctions_v1 res)"
  shows "\<exists>thisFile \<in> set (Files report). \<exists>lastFile.
           File_v1 u = FilePath thisFile \<and>
           find (\<lambda>f. FilePath f = File_v1 u) (rev (Files report)) = Some lastFile \<and>
           UncoveredLineNumbers_v1 u =
             sort (map LineNumber
                     (filter (\<lambda>l. FunctionName l = FunctionName_v1 u \<and> Count l = 0)
                        (Lines lastFile))) \<and>
           TotalLines_v1 u =
             int (length (filter (\<lambda>l. FunctionName l = FunctionName_v1 u) (Lines thisFile))) \<and>
           CoveredLines_v1 u =
             int (length (filter (\<lambda>l. FunctionName l = FunctionName_v1 u \<and> Count l > 0)
                            (Lines thisFile)))"
proof -
  let ?um = "fst (FindUncoveredLines_firstPass (Files report) ([], []))"
  let ?fm = "snd (FindUncoveredLines_firstPass (Files report) ([], []))"
  from assms obtain f k where f: "f \<in> set (Files report)"
    and u: "u \<in> set (FindUncoveredLines_v1_function f (map_index [] ?um (FilePath f))
                       (map_index [] ?fm (FilePath f)) k)"
    by (auto simp: FindUncoveredLines_v1_def FindUncoveredLines_v1_secondPass_eq
          split: prod.splits)
  from u have ne: "map_index [] (map_index [] ?um (FilePath f)) k \<noteq> []"
    by (auto simp: FindUncoveredLines_v1_function_eq split: if_splits)
  then have "map_index [] ?um (FilePath f) \<noteq> []"
    by (auto simp: map_index_Nil)
  from FindUncoveredLines_firstPass_index[OF this] obtain lf
    where lf: "find (\<lambda>g. FilePath g = FilePath f) (rev (Files report)) = Some lf"
      and um: "map_index [] ?um (FilePath f) = FindUncoveredLines_collect (Lines lf) []"
    by blast
  from u ne have eq: "u = \<lparr>File_v1 = FilePath f,
             FunctionName_v1 = k,
             DemangledName_v1 =
               (if map_index [] (map_index [] ?fm (FilePath f)) k = [] then k
                else map_index [] (map_index [] ?fm (FilePath f)) k),
             UncoveredLineNumbers_v1 =
               sort (map LineNumber (filter (\<lambda>l. FunctionName l = k \<and> Count l = 0) (Lines lf))),
             TotalLines_v1 = int (length (filter (\<lambda>l. FunctionName l = k) (Lines f))),
             CoveredLines_v1 =
               int (length (filter (\<lambda>l. FunctionName l = k \<and> Count l > 0) (Lines f)))\<rparr>"
    by (simp add: FindUncoveredLines_v1_function_eq um FindUncoveredLines_collect_index
          map_index_Nil)
  have "File_v1 u = FilePath f" "FunctionName_v1 u = k"
    "UncoveredLineNumbers_v1 u =
       sort (map LineNumber (filter (\<lambda>l. FunctionName l = k \<and> Count l = 0) (Lines lf)))"
    "TotalLines_v1 u = int (length (filter (\<lambda>l. FunctionName l = k) (Lines f)))"
    "CoveredLines_v1 u =
       int (length (filter (\<lambda>l. FunctionName l = k \<and> Count l > 0) (Lines f)))"
    by (subst eq, simp)+
  with f lf show ?thesis by auto
qed

lemma FindUncoveredLines_v1_counts_add_up:
  assumes "FindUncoveredLines_v1 w (Some report) = Inr (res, e)"
    and "distinct (map FilePath (Files report))"
    and "\<forall>f \<in> set (Files report). \<forall>l \<in> set (Lines f). Count l \<ge> 0"
    and "u \<in> set (UncoveredFunctions_v1 res)"
  shows "TotalLines_v1 u = CoveredLines_v1 u + int (length (UncoveredLineNumbers_v1 u))"
proof -
  from FindUncoveredLines_v1_records[OF assms(1,4)] obtain thisFile lastFile
    where mem: "thisFile \<in> set (Files report)"
      and path: "File_v1 u = FilePath thisFile"
      and lf: "find (\<lambda>f. FilePath f = File_v1 u) (rev (Files report)) = Some lastFile"
      and un: "UncoveredLineNumbers_v1 u =
             sort (map LineNumber
                     (filter (\<lambda>l. FunctionName l = FunctionName_v1 u \<and> Count l = 0)
                        (Lines lastFile)))"
      and tl: "TotalLines_v1 u =
             int (length (filter (\<lambda>l. FunctionName l = FunctionName_v1 u) (Lines thisFile)))"
      and cl: "CoveredLines_v1 u =
             int (length (filter (\<lambda>l. FunctionName l = FunctionName_v1 u \<and> Count l > 0)
                            (Lines thisFile)))"
    by blast
  from find_SomeD[OF lf] have "lastFile \<in> set (Files report)" "FilePath lastFile = File_v1 u"
    by simp_all
  with mem path assms(2) have same: "lastFile = thisFile"
    by (metis distinct_map inj_onD)
  from mem assms(3) have "\<forall>l \<in> set (Lines thisFile). Count l \<ge> 0" by blast
  from count_split[OF this, of "FunctionName_v1 u"] show ?thesis
    by (simp add: un tl cl same)
qed

subsection \<open>The order of the line numbers\<close>

text \<open>
  C4, as the code has it. The \<open>UncoveredLineNumbers\<close> of every record of
  \<open>FindUncoveredLines\<close> are in ascending order and are the line numbers of the uncovered
  lines of the function, one for each such line of the file (the last file with the
  record's path): a line number that two uncovered lines of the function share is repeated.
  The list is strictly ascending exactly when those line numbers are pairwise different.
\<close>

theorem uncovered_line_numbers_sorted:
  assumes "FindUncoveredLines w (Some report) = Inr (res, e)"
    and "fu \<in> set (Files_unc res)"
    and "u \<in> set (UncoveredFunctions fu)"
  shows "sorted (UncoveredLineNumbers u) \<and>
         (\<exists>file. find (\<lambda>f. FilePath f = FilePath_unc fu) (rev (Files report)) = Some file \<and>
            mset (UncoveredLineNumbers u) =
              mset (map LineNumber
                      (filter (\<lambda>l. FunctionName l = FunctionName_unc u \<and> Count l = 0)
                         (Lines file))) \<and>
            (sorted_wrt (<) (UncoveredLineNumbers u) \<longleftrightarrow>
               distinct (map LineNumber
                           (filter (\<lambda>l. FunctionName l = FunctionName_unc u \<and> Count l = 0)
                              (Lines file)))))"
proof -
  from FindUncoveredLines_records[OF assms] obtain lastFile
    where lf: "find (\<lambda>f. FilePath f = FilePath_unc fu) (rev (Files report)) = Some lastFile"
      and un: "UncoveredLineNumbers u =
             sort (map LineNumber
                     (filter (\<lambda>l. FunctionName l = FunctionName_unc u \<and> Count l = 0)
                        (Lines lastFile)))"
    by blast
  have "sorted (UncoveredLineNumbers u)" by (simp add: un)
  moreover have "sorted_wrt (<) (UncoveredLineNumbers u) \<longleftrightarrow>
      distinct (map LineNumber
                  (filter (\<lambda>l. FunctionName l = FunctionName_unc u \<and> Count l = 0)
                     (Lines lastFile)))"
    unfolding un strict_sorted_iff by simp
  moreover have "mset (UncoveredLineNumbers u) =
      mset (map LineNumber
              (filter (\<lambda>l. FunctionName l = FunctionName_unc u \<and> Count l = 0) (Lines lastFile)))"
    by (simp add: un)
  ultimately show ?thesis using lf by blast
qed

theorem uncovered_line_numbers_sorted_witness:
  "FindUncoveredLines insertion_order (Some fallback_report) =
     Inr (\<lparr>Files_unc =
             [\<lparr>FilePath_unc = ''d.cpp'',
               UncoveredFunctions =
                 [\<lparr>FunctionName_unc = ''g'', DemangledName_unc = ''g'',
                   UncoveredLineNumbers = [4, 9], TotalLines_unc = 3, CoveredLines = 1\<rparr>]\<rparr>]\<rparr>,
          None) \<and>
   sorted [4, 9 :: int] \<and>
   find (\<lambda>f. FilePath f = ''d.cpp'') (rev (Files fallback_report)) = Some fallback_file \<and>
   map LineNumber (filter (\<lambda>l. FunctionName l = ''g'' \<and> Count l = 0) (Lines fallback_file)) =
     [9, 4] \<and>
   sorted_wrt (<) [4, 9 :: int]"
proof -
  let ?u = "\<lparr>FunctionName_unc = ''g'', DemangledName_unc = ''g'',
             UncoveredLineNumbers = [4, 9], TotalLines_unc = 3, CoveredLines = 1\<rparr>"
  let ?fu = "\<lparr>FilePath_unc = ''d.cpp'', UncoveredFunctions = [?u]\<rparr>"
  have h2: "?fu \<in> set (Files_unc \<lparr>Files_unc = [?fu]\<rparr>)" by simp
  have h3: "?u \<in> set (UncoveredFunctions ?fu)" by simp
  have l: "map LineNumber (filter (\<lambda>l. FunctionName l = ''g'' \<and> Count l = 0)
             (Lines fallback_file)) = [9, 4]"
    by (simp add: fallback_file_def mkLine_def)
  have p: "FilePath fallback_file = ''d.cpp''" by (simp add: fallback_file_def)
  from uncovered_line_numbers_sorted[OF fallback_uncovered_result h2 h3]
  show ?thesis
    using fallback_uncovered_result l by (simp add: fallback_report_def p)
qed

theorem uncovered_line_numbers_sorted_counterexample:
  "FindUncoveredLines insertion_order (Some duplicate_line_report) =
     Inr (\<lparr>Files_unc =
             [\<lparr>FilePath_unc = ''a.cpp'',
               UncoveredFunctions =
                 [\<lparr>FunctionName_unc = ''f'', DemangledName_unc = ''f()'',
                   UncoveredLineNumbers = [5, 5], TotalLines_unc = 2, CoveredLines = 0\<rparr>]\<rparr>]\<rparr>,
          None) \<and>
   \<not> sorted_wrt (<) [5, 5 :: int]"
  using duplicate_line_result by simp

subsection \<open>The files of the result\<close>

lemma FindUncoveredLines_collect_key_index:
  assumes "k \<in> set (map_keys (FindUncoveredLines_collect ls []))"
  shows "map_index [] (FindUncoveredLines_collect ls []) k \<noteq> []"
proof -
  from assms obtain l where "l \<in> set ls" "FunctionName l = k" "Count l = 0"
    by (auto simp: FindUncoveredLines_collect_keys map_keys_Nil)
  then have "filter (\<lambda>l. FunctionName l = k \<and> Count l = 0) ls \<noteq> []"
    by (auto simp: filter_empty_conv)
  then show ?thesis by (simp add: FindUncoveredLines_collect_index map_index_Nil)
qed

lemma FindUncoveredLines_file_path:
  "fu \<in> set (FindUncoveredLines_file w fs um fm p) \<Longrightarrow>
   FilePath_unc fu = p \<and> UncoveredFunctions fu \<noteq> []"
  by (auto simp: FindUncoveredLines_file_def Let_def split: option.splits if_splits)

lemma FindUncoveredLines_file_cases:
  "FindUncoveredLines_file w fs um fm p = [] \<or>
   (\<exists>ufs. FindUncoveredLines_file w fs um fm p = [\<lparr>FilePath_unc = p, UncoveredFunctions = ufs\<rparr>])"
  by (auto simp: FindUncoveredLines_file_def Let_def split: option.splits)

lemma map_path_concat_file:
  "map FilePath_unc (concat (map (FindUncoveredLines_file w fs um fm) ps)) =
     filter (\<lambda>p. FindUncoveredLines_file w fs um fm p \<noteq> []) ps"
proof (induction ps)
  case Nil
  then show ?case by simp
next
  case (Cons p ps)
  from FindUncoveredLines_file_cases[of w fs um fm p] Cons show ?case by auto
qed

lemma FindUncoveredLines_file_nonempty:
  assumes ok: "range_order_ok w"
    and lf: "find (\<lambda>f. FilePath f = p) (rev fs) = Some lf"
    and zero: "\<exists>l \<in> set (Lines lf). Count l = 0"
  shows "FindUncoveredLines_file w fs
           (fst (FindUncoveredLines_firstPass fs ([], [])))
           (snd (FindUncoveredLines_firstPass fs ([], []))) p \<noteq> []"
proof -
  let ?um = "fst (FindUncoveredLines_firstPass fs ([], []))"
  let ?fm = "snd (FindUncoveredLines_firstPass fs ([], []))"
  let ?c = "FindUncoveredLines_collect (Lines lf) []"
  have um: "map_index [] ?um p = ?c"
    using lf by (simp add: map_index_def FindUncoveredLines_firstPass_uncovered)
  from find_SomeD[OF lf] have "p \<in> FilePath ` set fs" by auto
  then obtain fo where fo: "find (\<lambda>f. FilePath f = p) fs = Some fo"
    by (cases "find (\<lambda>f. FilePath f = p) fs") (auto simp: find_None_iff)
  from zero have "?c \<noteq> []" by (simp add: FindUncoveredLines_collect_empty)
  then have "map_keys ?c \<noteq> []" by (simp add: map_keys_def)
  then have "str_order w (map_keys ?c) \<noteq> []"
    using ok by (metis range_order_ok_def mset_zero_iff)
  then obtain k where k: "k \<in> set (str_order w (map_keys ?c))"
    by (cases "str_order w (map_keys ?c)") auto
  then have "k \<in> set (map_keys ?c)" using ok by (simp add: range_order_ok_str_set)
  from FindUncoveredLines_collect_key_index[OF this]
  have "FindUncoveredLines_function fo ?c (map_index [] ?fm p) k \<noteq> []"
    by (simp add: FindUncoveredLines_function_eq)
  with k have "concat (map (FindUncoveredLines_function fo ?c (map_index [] ?fm p))
                 (str_order w (map_keys ?c))) \<noteq> []"
    by auto
  then show ?thesis
    by (simp add: FindUncoveredLines_file_def FindUncoveredLines_fileObj_find fo um Let_def
          FindUncoveredLines_functions_eq)
qed

lemma FindUncoveredLines_filePaths_iff:
  assumes "range_order_ok w"
  shows "p \<in> set (FindUncoveredLines_filePaths w (fst (FindUncoveredLines_firstPass fs ([], []))))
         \<longleftrightarrow> (\<exists>lf. find (\<lambda>f. FilePath f = p) (rev fs) = Some lf \<and>
                    (\<exists>l \<in> set (Lines lf). Count l = 0))"
proof -
  let ?um = "fst (FindUncoveredLines_firstPass fs ([], []))"
  have keys: "set (map_keys ?um) = FilePath ` set fs"
    by (simp add: FindUncoveredLines_firstPass_keys map_keys_Nil)
  show ?thesis
  proof (cases "find (\<lambda>f. FilePath f = p) (rev fs)")
    case None
    then have "map_of ?um p = None" by (simp add: FindUncoveredLines_firstPass_uncovered)
    then have "map_index [] ?um p = []" by (simp add: map_index_def)
    with None show ?thesis by (simp add: FindUncoveredLines_filePaths_def)
  next
    case (Some lf)
    then have um: "map_index [] ?um p = FindUncoveredLines_collect (Lines lf) []"
      by (simp add: map_index_def FindUncoveredLines_firstPass_uncovered)
    from find_SomeD[OF Some] have "p \<in> set (map_keys ?um)" unfolding keys by auto
    then show ?thesis
      using assms Some
      by (auto simp: FindUncoveredLines_filePaths_def range_order_ok_str_set um
            FindUncoveredLines_collect_empty)
  qed
qed

lemma FindUncoveredLines_filePaths_sorted:
  "sorted (FindUncoveredLines_filePaths w um)"
  by (simp add: FindUncoveredLines_filePaths_def)

lemma FindUncoveredLines_filePaths_distinct:
  "range_order_ok w \<Longrightarrow> distinct (map_keys um) \<Longrightarrow>
   distinct (FindUncoveredLines_filePaths w um)"
  by (simp add: FindUncoveredLines_filePaths_def range_order_ok_str_distinct)

lemma FindUncoveredLines_paths:
  assumes "range_order_ok w"
    and "FindUncoveredLines w (Some report) = Inr (res, e)"
  shows "map FilePath_unc (Files_unc res) =
     FindUncoveredLines_filePaths w (fst (FindUncoveredLines_firstPass (Files report) ([], [])))"
proof -
  let ?um = "fst (FindUncoveredLines_firstPass (Files report) ([], []))"
  let ?fm = "snd (FindUncoveredLines_firstPass (Files report) ([], []))"
  have "FindUncoveredLines_file w (Files report) ?um ?fm p \<noteq> []"
    if "p \<in> set (FindUncoveredLines_filePaths w ?um)" for p
    using that FindUncoveredLines_filePaths_iff[OF assms(1), of p "Files report"]
      FindUncoveredLines_file_nonempty[OF assms(1)]
    by blast
  then have "filter (\<lambda>p. FindUncoveredLines_file w (Files report) ?um ?fm p \<noteq> [])
               (FindUncoveredLines_filePaths w ?um) = FindUncoveredLines_filePaths w ?um"
    by (simp add: filter_id_conv)
  with assms(2) show ?thesis
    by (auto simp: FindUncoveredLines_Some map_path_concat_file)
qed

text \<open>
  C5. The files returned by \<open>FindUncoveredLines\<close> are in ascending order of their paths,
  which are pairwise different and are paths of files of the report, and none of them has
  an empty list of functions. In a report of the data model, where a file is identified by
  its path (the paths of the files are pairwise different), a file of the report is among
  them exactly when one of its lines has count \<open>0\<close>. A report without files, or one whose
  lines all have a count \<open>> 0\<close>, gives a result without files.
\<close>

theorem uncovered_files:
  assumes "range_order_ok w"
    and "FindUncoveredLines w (Some report) = Inr (res, e)"
  shows "sorted (map FilePath_unc (Files_unc res)) \<and>
         distinct (map FilePath_unc (Files_unc res)) \<and>
         (\<forall>fu \<in> set (Files_unc res). UncoveredFunctions fu \<noteq> []) \<and>
         FilePath_unc ` set (Files_unc res) \<subseteq> FilePath ` set (Files report) \<and>
         (distinct (map FilePath (Files report)) \<longrightarrow>
            (\<forall>file \<in> set (Files report).
               FilePath file \<in> FilePath_unc ` set (Files_unc res) \<longleftrightarrow>
               (\<exists>l \<in> set (Lines file). Count l = 0))) \<and>
         (Files report = [] \<or> (\<forall>file \<in> set (Files report). \<forall>l \<in> set (Lines file). Count l > 0)
            \<longrightarrow> Files_unc res = [])"
proof -
  let ?um = "fst (FindUncoveredLines_firstPass (Files report) ([], []))"
  note paths = FindUncoveredLines_paths[OF assms]
  have iff: "path \<in> FilePath_unc ` set (Files_unc res) \<longleftrightarrow>
            (\<exists>file. find (\<lambda>f. FilePath f = path) (rev (Files report)) = Some file \<and>
               (\<exists>l \<in> set (Lines file). Count l = 0))" for path
  proof -
    have "FilePath_unc ` set (Files_unc res) = set (FindUncoveredLines_filePaths w ?um)"
      by (metis paths set_map)
    then show ?thesis
      by (simp only: FindUncoveredLines_filePaths_iff[OF assms(1)])
  qed
  have c1: "sorted (map FilePath_unc (Files_unc res))"
    unfolding paths by (rule FindUncoveredLines_filePaths_sorted)
  have c2: "distinct (map FilePath_unc (Files_unc res))"
    unfolding paths
    by (rule FindUncoveredLines_filePaths_distinct[OF assms(1)])
       (simp add: FindUncoveredLines_firstPass_distinct map_keys_Nil)
  have c3: "\<forall>fu \<in> set (Files_unc res). UncoveredFunctions fu \<noteq> []"
    using assms(2) by (auto simp: FindUncoveredLines_Some dest: FindUncoveredLines_file_path)
  have c4: "FilePath_unc ` set (Files_unc res) \<subseteq> FilePath ` set (Files report)"
  proof
    fix path assume "path \<in> FilePath_unc ` set (Files_unc res)"
    then obtain g where "find (\<lambda>f. FilePath f = path) (rev (Files report)) = Some g"
      unfolding iff by blast
    from find_SomeD[OF this] show "path \<in> FilePath ` set (Files report)" by auto
  qed
  have c5: "FilePath g \<in> FilePath_unc ` set (Files_unc res) \<longleftrightarrow>
               (\<exists>l \<in> set (Lines g). Count l = 0)"
    if d: "distinct (map FilePath (Files report))" and mem: "g \<in> set (Files report)" for g
  proof -
    from mem have "find (\<lambda>f. FilePath f = FilePath g) (Files report) \<noteq> None"
      by (auto simp: find_None_iff)
    then obtain f where f: "find (\<lambda>f. FilePath f = FilePath g) (Files report) = Some f"
      by auto
    from find_SomeD[OF f] have "f \<in> set (Files report)" "FilePath f = FilePath g" by auto
    with d mem have "f = g" by (meson distinct_map inj_onD)
    with f d have "find (\<lambda>f. FilePath f = FilePath g) (rev (Files report)) = Some g"
      by (simp add: find_rev_distinct)
    then show ?thesis by (simp add: iff)
  qed
  have c6: "Files_unc res = []"
    if "Files report = [] \<or> (\<forall>file \<in> set (Files report). \<forall>l \<in> set (Lines file). Count l > 0)"
  proof -
    have "path \<notin> FilePath_unc ` set (Files_unc res)" for path
    proof
      assume "path \<in> FilePath_unc ` set (Files_unc res)"
      then obtain g l where f: "find (\<lambda>f. FilePath f = path) (rev (Files report)) = Some g"
        and l: "l \<in> set (Lines g)" "Count l = 0"
        unfolding iff by blast
      from find_SomeD[OF f] have mem: "g \<in> set (Files report)" by simp
      then have "Files report \<noteq> []" by auto
      with that mem l(1) have "Count l > 0" by blast
      with l(2) show False by simp
    qed
    then show ?thesis by (cases "Files_unc res") auto
  qed
  from c1 c2 c3 c4 c5 c6 show ?thesis by blast
qed

theorem uncovered_files_witness:
  "range_order_ok insertion_order \<and>
   FindUncoveredLines insertion_order (Some three_files_report) =
     Inr (\<lparr>Files_unc =
             [\<lparr>FilePath_unc = ''a.cpp'',
               UncoveredFunctions =
                 [\<lparr>FunctionName_unc = ''func1'', DemangledName_unc = ''func1()'',
                   UncoveredLineNumbers = [1, 2], TotalLines_unc = 2, CoveredLines = 0\<rparr>]\<rparr>,
              \<lparr>FilePath_unc = ''b.cpp'',
               UncoveredFunctions =
                 [\<lparr>FunctionName_unc = ''func2'', DemangledName_unc = ''func2()'',
                   UncoveredLineNumbers = [10], TotalLines_unc = 1, CoveredLines = 0\<rparr>]\<rparr>]\<rparr>,
          None) \<and>
   map FilePath (Files three_files_report) = [''b.cpp'', ''a.cpp'', ''c.cpp''] \<and>
   distinct (map FilePath (Files three_files_report)) \<and>
   sorted [''a.cpp'', ''b.cpp''] \<and> distinct [''a.cpp'', ''b.cpp''] \<and>
   (FilePath (hd (Files three_files_report)) \<in> set [''a.cpp'', ''b.cpp'']) =
     (\<exists>l \<in> set (Lines (hd (Files three_files_report))). Count l = 0) \<and>
   (FilePath (last (Files three_files_report)) \<in> set [''a.cpp'', ''b.cpp'']) =
     (\<exists>l \<in> set (Lines (last (Files three_files_report))). Count l = 0)"
proof -
  have m: "map FilePath (Files three_files_report) = [''b.cpp'', ''a.cpp'', ''c.cpp'']"
    by (simp add: three_files_report_def)
  have dp: "distinct (map FilePath (Files three_files_report))"
    by (simp add: m)
  have h1: "hd (Files three_files_report) \<in> set (Files three_files_report)"
    by (simp add: three_files_report_def)
  have h2: "last (Files three_files_report) \<in> set (Files three_files_report)"
    by (simp add: three_files_report_def)
  note t = uncovered_files[OF range_order_ok_insertion three_files_result]
  note iff = t[THEN conjunct2, THEN conjunct2, THEN conjunct2, THEN conjunct2, THEN conjunct1,
      THEN mp, OF dp]
  from t[THEN conjunct1] have s: "sorted [''a.cpp'', ''b.cpp'']" by simp
  from t[THEN conjunct2, THEN conjunct1] have d: "distinct [''a.cpp'', ''b.cpp'']" by simp
  from iff[THEN bspec, OF h1]
  have i1: "(FilePath (hd (Files three_files_report)) \<in> set [''a.cpp'', ''b.cpp'']) =
     (\<exists>l \<in> set (Lines (hd (Files three_files_report))). Count l = 0)"
    by simp
  from iff[THEN bspec, OF h2]
  have i2: "(FilePath (last (Files three_files_report)) \<in> set [''a.cpp'', ''b.cpp'']) =
     (\<exists>l \<in> set (Lines (last (Files three_files_report))). Count l = 0)"
    by simp
  from range_order_ok_insertion three_files_result m dp s d i1 i2 show ?thesis by blast
qed

section \<open>Demangled names\<close>

lemma processNewFile_demangled:
  "r \<in> set (processNewFile w f) \<Longrightarrow>
   File_inc r = FilePath f \<and>
   DemangledName_inc r = spec_demangled_name (Functions f) (FunctionName_inc r)"
  by (auto simp: processNewFile_eq processNewFile_record_def Let_def spec_demangled_name_index)

lemma compareFunctions_demangled:
  "r \<in> set (compareFunctions w bf f) \<Longrightarrow>
   File_inc r = FilePath f \<and>
   DemangledName_inc r = spec_demangled_name (Functions f) (FunctionName_inc r)"
  by (auto simp: compareFunctions_eq compareFunctions_function_eq buildFunctionNameMap_def
        Let_def spec_demangled_name_index split: if_splits)

lemma ComputeCoverageIncrease_loop_demangled:
  "r \<in> set (ComputeCoverageIncrease_loop w bm fs []) \<Longrightarrow>
   \<exists>f \<in> set fs. File_inc r = FilePath f \<and>
     DemangledName_inc r = spec_demangled_name (Functions f) (FunctionName_inc r)"
proof (induction fs)
  case Nil
  then show ?case by simp
next
  case (Cons f fs)
  from Cons.prems have "r \<in> set (processNewFile w f) \<or>
      (\<exists>bf. r \<in> set (compareFunctions w bf f)) \<or>
      r \<in> set (ComputeCoverageIncrease_loop w bm fs [])"
    by (cases "map_of bm (FilePath f)")
       (auto simp: ComputeCoverageIncrease_loop_acc[of _ _ _ "processNewFile w f"]
          ComputeCoverageIncrease_loop_acc[of _ _ _ "compareFunctions w _ f"])
  then show ?case
    using processNewFile_demangled compareFunctions_demangled Cons.IH by fastforce
qed

text \<open>
  C10. The demangled name of every record of \<open>ComputeCoverageIncrease\<close> and of
  \<open>FindUncoveredLines\<close> is the demangled name of the last entry of the function list of
  the record's file whose mangled name is the record's function name; when there is no
  such entry, or when that entry's demangled name is the empty string, it is the mangled
  name. The record's file is the file of the new report that the record was built from
  and, for the uncovered engine, the last file of the report with the record's path.
\<close>

theorem demangled_name_resolution:
  assumes "ComputeCoverageIncrease w (Some base) (Some new) = Inr (increase, e1)"
    and "FindUncoveredLines w (Some report) = Inr (uncovered, e2)"
  shows "(\<forall>r \<in> set (Increases increase).
            \<exists>newFile \<in> set (Files new).
              File_inc r = FilePath newFile \<and>
              DemangledName_inc r =
                spec_demangled_name (Functions newFile) (FunctionName_inc r)) \<and>
         (\<forall>r \<in> set (processNewFile w newFile).
            DemangledName_inc r = spec_demangled_name (Functions newFile) (FunctionName_inc r)) \<and>
         (\<forall>r \<in> set (compareFunctions w baseFile newFile).
            DemangledName_inc r = spec_demangled_name (Functions newFile) (FunctionName_inc r)) \<and>
         (\<forall>fu \<in> set (Files_unc uncovered). \<forall>u \<in> set (UncoveredFunctions fu).
            \<exists>file. find (\<lambda>f. FilePath f = FilePath_unc fu) (rev (Files report)) = Some file \<and>
              DemangledName_unc u =
                spec_demangled_name (Functions file) (FunctionName_unc u))"
proof (intro conjI ballI)
  fix r assume "r \<in> set (Increases increase)"
  with assms(1) have "r \<in> set (ComputeCoverageIncrease_loop w
      (baseFileMap_loop (Files base) []) (Files new) [])"
    by (auto simp: ComputeCoverageIncrease_Some)
  then show "\<exists>newFile \<in> set (Files new).
              File_inc r = FilePath newFile \<and>
              DemangledName_inc r =
                spec_demangled_name (Functions newFile) (FunctionName_inc r)"
    by (rule ComputeCoverageIncrease_loop_demangled)
next
  fix r assume "r \<in> set (processNewFile w newFile)"
  then show "DemangledName_inc r = spec_demangled_name (Functions newFile) (FunctionName_inc r)"
    by (simp add: processNewFile_demangled)
next
  fix r assume "r \<in> set (compareFunctions w baseFile newFile)"
  then show "DemangledName_inc r = spec_demangled_name (Functions newFile) (FunctionName_inc r)"
    by (simp add: compareFunctions_demangled)
next
  fix fu u assume "fu \<in> set (Files_unc uncovered)" "u \<in> set (UncoveredFunctions fu)"
  from FindUncoveredLines_records[OF assms(2) this]
  show "\<exists>file. find (\<lambda>f. FilePath f = FilePath_unc fu) (rev (Files report)) = Some file \<and>
              DemangledName_unc u =
                spec_demangled_name (Functions file) (FunctionName_unc u)"
    by blast
qed

theorem demangled_name_resolution_witness:
  "ComputeCoverageIncrease insertion_order (Some newfile_base) (Some fallback_report) =
     Inr (\<lparr>Increases =
             [\<lparr>File_inc = ''d.cpp'', FunctionName_inc = ''f'', DemangledName_inc = ''f(int)'',
               LinesIncreased = 1, TotalLines = 1, IncreasedLineNumbers = [1],
               OldCoveredLines = 0, NewCoveredLines = 1\<rparr>,
              \<lparr>File_inc = ''d.cpp'', FunctionName_inc = ''h'', DemangledName_inc = ''h'',
               LinesIncreased = 1, TotalLines = 1, IncreasedLineNumbers = [3],
               OldCoveredLines = 0, NewCoveredLines = 1\<rparr>,
              \<lparr>File_inc = ''d.cpp'', FunctionName_inc = ''g'', DemangledName_inc = ''g'',
               LinesIncreased = 1, TotalLines = 3, IncreasedLineNumbers = [7],
               OldCoveredLines = 0, NewCoveredLines = 1\<rparr>]\<rparr>,
          None) \<and>
   FindUncoveredLines insertion_order (Some fallback_report) =
     Inr (\<lparr>Files_unc =
             [\<lparr>FilePath_unc = ''d.cpp'',
               UncoveredFunctions =
                 [\<lparr>FunctionName_unc = ''g'', DemangledName_unc = ''g'',
                   UncoveredLineNumbers = [4, 9], TotalLines_unc = 3, CoveredLines = 1\<rparr>]\<rparr>]\<rparr>,
          None) \<and>
   spec_demangled_name (Functions fallback_file) ''f'' = ''f(int)'' \<and>
   spec_demangled_name (Functions fallback_file) ''h'' = ''h'' \<and>
   spec_demangled_name (Functions fallback_file) ''g'' = ''g'' \<and>
   find (\<lambda>f. FilePath f = ''d.cpp'') (rev (Files fallback_report)) = Some fallback_file"
proof -
  note t = demangled_name_resolution[OF fallback_increase_result fallback_uncovered_result,
      of fallback_file fallback_file]
  have p: "FilePath fallback_file = ''d.cpp''" by (simp add: fallback_file_def)
  from t[THEN conjunct1] t[THEN conjunct2, THEN conjunct2, THEN conjunct2]
  show ?thesis
    using fallback_increase_result fallback_uncovered_result
    by (simp add: fallback_report_def p)
qed

section \<open>The order of the diff engine's result\<close>

lemma sort_mset_eq: "mset xs = mset ys \<Longrightarrow> sort xs = sort (ys :: int list)"
  by (metis sorted_list_of_multiset_mset)

lemma compareFunctions_function_order:
  assumes "range_order_ok w1" "range_order_ok w2"
  shows "map sorted_lines (compareFunctions_function w1 nf bc nc fns fn) =
         map sorted_lines (compareFunctions_function w2 nf bc nc fns fn)"
proof -
  let ?nl = "map_index [] nc fn"
  have m: "mset (filter P (int_order w1 (map_keys ?nl))) =
           mset (filter P (int_order w2 (map_keys ?nl)))" for P
    using assms by (simp add: range_order_ok_def)
  have len: "length (filter P (int_order w1 (map_keys ?nl))) =
             length (filter P (int_order w2 (map_keys ?nl)))" for P
    using m[of P] by (metis size_mset)
  have empty: "filter P (int_order w1 (map_keys ?nl)) = [] \<longleftrightarrow>
               filter P (int_order w2 (map_keys ?nl)) = []" for P
    using len[of P] by (metis length_0_conv)
  have srt: "sort (filter P (int_order w1 (map_keys ?nl))) =
             sort (filter P (int_order w2 (map_keys ?nl)))" for P
    using m[of P] by (rule sort_mset_eq)
  show ?thesis
    by (simp add: compareFunctions_function_eq Let_def sorted_lines_def empty len srt)
qed

lemma mset_concat_map:
  "mset xs = mset ys \<Longrightarrow> mset (concat (map g xs)) = mset (concat (map g ys))"
proof -
  assume "mset xs = mset ys"
  then have "image_mset (\<lambda>x. mset (g x)) (mset xs) = image_mset (\<lambda>x. mset (g x)) (mset ys)"
    by simp
  then have "sum_mset (image_mset (\<lambda>x. mset (g x)) (mset xs)) =
             sum_mset (image_mset (\<lambda>x. mset (g x)) (mset ys))" by simp
  moreover have "mset (concat (map g zs)) = sum_mset (image_mset (\<lambda>x. mset (g x)) (mset zs))"
    for zs by (induction zs) auto
  ultimately show ?thesis by simp
qed

lemma compareFunctions_order:
  assumes "range_order_ok w1" "range_order_ok w2"
  shows "mset (map sorted_lines (compareFunctions w1 bf nf)) =
         mset (map sorted_lines (compareFunctions w2 bf nf))"
proof -
  let ?g = "\<lambda>w. compareFunctions_function w nf (buildLineCoverageMap bf)
                    (buildLineCoverageMap nf) (buildFunctionNameMap nf)"
  let ?ks = "map_keys (buildLineCoverageMap nf)"
  have ks: "mset (str_order w1 ?ks) = mset (str_order w2 ?ks)"
    using assms by (simp add: range_order_ok_def)
  have "map sorted_lines (compareFunctions w bf nf) =
        concat (map (\<lambda>k. map sorted_lines (?g w k)) (str_order w ?ks))" for w
    by (simp add: compareFunctions_eq map_concat comp_def)
  moreover have "(\<lambda>k. map sorted_lines (?g w1 k)) = (\<lambda>k. map sorted_lines (?g w2 k))"
    using compareFunctions_function_order[OF assms] by auto
  ultimately show ?thesis
    using mset_concat_map[OF ks] by simp
qed

lemma processNewFile_order:
  assumes "range_order_ok w1" "range_order_ok w2"
  shows "mset (map sorted_lines (processNewFile w1 f)) =
         mset (map sorted_lines (processNewFile w2 f))"
proof -
  have "mset (str_order w1 ks) = mset (str_order w2 ks)" for ks
    using assms by (simp add: range_order_ok_def)
  then show ?thesis
    by (simp add: processNewFile_eq)
qed

lemma processNewFile_files:
  "map File_inc (processNewFile w f) = replicate (length (processNewFile w f)) (FilePath f)"
  by (simp add: processNewFile_eq processNewFile_record_def Let_def map_replicate_const comp_def)

lemma map_const_replicate:
  "\<forall>x \<in> set xs. f x = c \<Longrightarrow> map f xs = replicate (length xs) c"
  by (induction xs) auto

lemma compareFunctions_files:
  "map File_inc (compareFunctions w bf f) = replicate (length (compareFunctions w bf f)) (FilePath f)"
proof -
  have "\<forall>r \<in> set (compareFunctions w bf f). File_inc r = FilePath f"
    by (simp add: compareFunctions_demangled)
  then show ?thesis by (rule map_const_replicate)
qed

lemma ComputeCoverageIncrease_loop_order:
  assumes "range_order_ok w1" "range_order_ok w2"
  shows "mset (map sorted_lines (ComputeCoverageIncrease_loop w1 bm fs [])) =
         mset (map sorted_lines (ComputeCoverageIncrease_loop w2 bm fs [])) \<and>
         map File_inc (ComputeCoverageIncrease_loop w1 bm fs []) =
         map File_inc (ComputeCoverageIncrease_loop w2 bm fs [])"
proof (induction fs)
  case Nil
  then show ?case by simp
next
  case (Cons f fs)
  have len: "length xs = length ys" if "mset (map sorted_lines xs) = mset (map sorted_lines ys)"
    for xs ys using that by (metis length_map size_mset)
  show ?case
  proof (cases "map_of bm (FilePath f)")
    case None
    note o = processNewFile_order[OF assms, of f]
    from None Cons.IH o len[OF o] show ?thesis
      by (simp add: ComputeCoverageIncrease_loop_acc[of _ _ _ "processNewFile _ f"]
            processNewFile_files)
  next
    case (Some bf)
    note o = compareFunctions_order[OF assms, of bf f]
    from Some Cons.IH o len[OF o] show ?thesis
      by (simp add: ComputeCoverageIncrease_loop_acc[of _ _ _ "compareFunctions _ bf f"]
            compareFunctions_files)
  qed
qed

lemma scenario1_insertion_result:
  "ComputeCoverageIncrease insertion_order (Some scenario1_base) (Some scenario1_new) =
     Inr (\<lparr>Increases =
             [\<lparr>File_inc = ''t.cpp'', FunctionName_inc = ''foo'', DemangledName_inc = ''foo()'',
               LinesIncreased = 2, TotalLines = 3, IncreasedLineNumbers = [1, 2],
               OldCoveredLines = 1, NewCoveredLines = 3\<rparr>]\<rparr>,
          None)"
  by code_simp

lemma scenario1_reverse_result:
  "ComputeCoverageIncrease reverse_order (Some scenario1_base) (Some scenario1_new) =
     Inr (\<lparr>Increases =
             [\<lparr>File_inc = ''t.cpp'', FunctionName_inc = ''foo'', DemangledName_inc = ''foo()'',
               LinesIncreased = 2, TotalLines = 3, IncreasedLineNumbers = [2, 1],
               OldCoveredLines = 1, NewCoveredLines = 3\<rparr>]\<rparr>,
          None)"
  by code_simp

lemma two_functions_insertion_result:
  "ComputeCoverageIncrease insertion_order (Some two_functions_base) (Some two_functions_new) =
     Inr (\<lparr>Increases =
             [\<lparr>File_inc = ''test.cpp'', FunctionName_inc = ''foo'', DemangledName_inc = ''foo()'',
               LinesIncreased = 1, TotalLines = 1, IncreasedLineNumbers = [1],
               OldCoveredLines = 0, NewCoveredLines = 1\<rparr>,
              \<lparr>File_inc = ''test.cpp'', FunctionName_inc = ''bar'', DemangledName_inc = ''bar()'',
               LinesIncreased = 1, TotalLines = 1, IncreasedLineNumbers = [5],
               OldCoveredLines = 0, NewCoveredLines = 1\<rparr>]\<rparr>,
          None)"
  by code_simp

lemma two_functions_reverse_result:
  "ComputeCoverageIncrease reverse_order (Some two_functions_base) (Some two_functions_new) =
     Inr (\<lparr>Increases =
             [\<lparr>File_inc = ''test.cpp'', FunctionName_inc = ''bar'', DemangledName_inc = ''bar()'',
               LinesIncreased = 1, TotalLines = 1, IncreasedLineNumbers = [5],
               OldCoveredLines = 0, NewCoveredLines = 1\<rparr>,
              \<lparr>File_inc = ''test.cpp'', FunctionName_inc = ''foo'', DemangledName_inc = ''foo()'',
               LinesIncreased = 1, TotalLines = 1, IncreasedLineNumbers = [1],
               OldCoveredLines = 0, NewCoveredLines = 1\<rparr>]\<rparr>,
          None)"
  by code_simp

lemma ComputeCoverageIncrease_loop_concat:
  "ComputeCoverageIncrease_loop w bm fs [] =
     concat (map (\<lambda>f. case map_of bm (FilePath f) of
                         None \<Rightarrow> processNewFile w f
                       | Some bf \<Rightarrow> compareFunctions w bf f) fs)"
proof (induction fs)
  case Nil
  then show ?case by simp
next
  case (Cons f fs)
  then show ?case
    by (cases "map_of bm (FilePath f)")
       (simp_all add: ComputeCoverageIncrease_loop_acc[of _ _ _ "processNewFile w f"]
          ComputeCoverageIncrease_loop_acc[of _ _ _ "compareFunctions w _ f"])
qed

lemma baseFileMap_find:
  "map_of (baseFileMap_loop fs []) p = find (\<lambda>f. FilePath f = p) (rev fs)"
  by (simp add: baseFileMap_loop_map_of split: option.splits)

lemma map_paths_concat:
  assumes "\<And>f r. r \<in> set (g f) \<Longrightarrow> File_inc r = FilePath f"
  shows "map File_inc (concat (map g fs)) =
         concat (map (\<lambda>f. replicate (length (g f)) (FilePath f)) fs)"
proof (induction fs)
  case Nil
  then show ?case by simp
next
  case (Cons f fs)
  have "map File_inc (g f) = replicate (length (g f)) (FilePath f)"
    by (rule map_const_replicate) (simp add: assms)
  with Cons show ?case by simp
qed

lemma two_files_insertion_result:
  "ComputeCoverageIncrease insertion_order (Some two_files_base) (Some two_files_new) =
     Inr (\<lparr>Increases =
             [\<lparr>File_inc = ''b.cpp'', FunctionName_inc = ''g'', DemangledName_inc = ''g()'',
               LinesIncreased = 1, TotalLines = 1, IncreasedLineNumbers = [1],
               OldCoveredLines = 0, NewCoveredLines = 1\<rparr>,
              \<lparr>File_inc = ''b.cpp'', FunctionName_inc = ''h'', DemangledName_inc = ''h()'',
               LinesIncreased = 1, TotalLines = 1, IncreasedLineNumbers = [2],
               OldCoveredLines = 0, NewCoveredLines = 1\<rparr>,
              \<lparr>File_inc = ''a.cpp'', FunctionName_inc = ''f'', DemangledName_inc = ''f()'',
               LinesIncreased = 1, TotalLines = 1, IncreasedLineNumbers = [1],
               OldCoveredLines = 0, NewCoveredLines = 1\<rparr>]\<rparr>,
          None)"
  by code_simp

lemma two_files_reverse_result:
  "ComputeCoverageIncrease reverse_order (Some two_files_base) (Some two_files_new) =
     Inr (\<lparr>Increases =
             [\<lparr>File_inc = ''b.cpp'', FunctionName_inc = ''h'', DemangledName_inc = ''h()'',
               LinesIncreased = 1, TotalLines = 1, IncreasedLineNumbers = [2],
               OldCoveredLines = 0, NewCoveredLines = 1\<rparr>,
              \<lparr>File_inc = ''b.cpp'', FunctionName_inc = ''g'', DemangledName_inc = ''g()'',
               LinesIncreased = 1, TotalLines = 1, IncreasedLineNumbers = [1],
               OldCoveredLines = 0, NewCoveredLines = 1\<rparr>,
              \<lparr>File_inc = ''a.cpp'', FunctionName_inc = ''f'', DemangledName_inc = ''f()'',
               LinesIncreased = 1, TotalLines = 1, IncreasedLineNumbers = [1],
               OldCoveredLines = 0, NewCoveredLines = 1\<rparr>]\<rparr>,
          None)"
  by code_simp

text \<open>
  C8, as the code has it. \<open>ComputeCoverageIncrease\<close> sorts nothing: the records of a
  file come in the order of the walk over a map keyed by function name, and the line
  numbers of a record of \<open>compareFunctions\<close> in the order of the walk over a map keyed by
  line number. Two runs on equal inputs therefore agree up to these two orders: they give
  the same records, each as often, once the line numbers of every record are sorted, and
  the same sequence of file paths; both return a nil error. With the same walk orders they
  give the same result. The result follows the files of the new report: it is the
  concatenation, in the order of these files, of the records of each file (those of
  \<open>processNewFile\<close> when no base file has the path, those of \<open>compareFunctions\<close> against
  the last base file with the path otherwise); the records of a file all carry its path,
  and the two runs give the same records for it, up to the two orders.
\<close>

theorem increase_report_up_to_order:
  assumes "range_order_ok w1"
    and "range_order_ok w2"
    and "ComputeCoverageIncrease w1 (Some base) (Some new) = Inr (res1, e1)"
    and "ComputeCoverageIncrease w2 (Some base) (Some new) = Inr (res2, e2)"
  shows "mset (map sorted_lines (Increases res1)) = mset (map sorted_lines (Increases res2)) \<and>
         map File_inc (Increases res1) = map File_inc (Increases res2) \<and>
         e1 = e2 \<and>
         (w1 = w2 \<longrightarrow> res1 = res2) \<and>
         (let records = (\<lambda>w newFile.
                 case find (\<lambda>f. FilePath f = FilePath newFile) (rev (Files base)) of
                   None \<Rightarrow> processNewFile w newFile
                 | Some baseFile \<Rightarrow> compareFunctions w baseFile newFile)
          in Increases res1 = concat (map (records w1) (Files new)) \<and>
             Increases res2 = concat (map (records w2) (Files new)) \<and>
             map File_inc (Increases res1) =
               concat (map (\<lambda>newFile. replicate (length (records w1 newFile)) (FilePath newFile))
                         (Files new)) \<and>
             (\<forall>newFile.
                mset (map sorted_lines (records w1 newFile)) =
                mset (map sorted_lines (records w2 newFile)) \<and>
                (\<forall>r \<in> set (records w1 newFile) \<union> set (records w2 newFile).
                   File_inc r = FilePath newFile)))"
proof -
  let ?bm = "baseFileMap_loop (Files base) []"
  let ?rec = "\<lambda>w newFile.
                 case find (\<lambda>f. FilePath f = FilePath newFile) (rev (Files base)) of
                   None \<Rightarrow> processNewFile w newFile
                 | Some baseFile \<Rightarrow> compareFunctions w baseFile newFile"
  from assms(3) have r1: "Increases res1 = ComputeCoverageIncrease_loop w1 ?bm (Files new) []"
    and e1: "e1 = None"
    by (auto simp: ComputeCoverageIncrease_Some)
  from assms(4) have r2: "Increases res2 = ComputeCoverageIncrease_loop w2 ?bm (Files new) []"
    and e2: "e2 = None"
    by (auto simp: ComputeCoverageIncrease_Some)
  have same: "w1 = w2 \<longrightarrow> res1 = res2" using assms(3,4) by auto
  note ord = ComputeCoverageIncrease_loop_order[OF assms(1,2), of ?bm "Files new"]
  have c1: "Increases res1 = concat (map (?rec w1) (Files new))"
    by (simp add: r1 ComputeCoverageIncrease_loop_concat baseFileMap_find)
  have c2: "Increases res2 = concat (map (?rec w2) (Files new))"
    by (simp add: r2 ComputeCoverageIncrease_loop_concat baseFileMap_find)
  have path: "File_inc r = FilePath newFile" if "r \<in> set (?rec w newFile)" for w r newFile
    using that processNewFile_demangled compareFunctions_demangled
    by (cases "find (\<lambda>f. FilePath f = FilePath newFile) (rev (Files base))") auto
  have c3: "map File_inc (Increases res1) =
      concat (map (\<lambda>newFile. replicate (length (?rec w1 newFile)) (FilePath newFile)) (Files new))"
    unfolding c1 by (rule map_paths_concat) (rule path)
  have c4: "mset (map sorted_lines (?rec w1 newFile)) = mset (map sorted_lines (?rec w2 newFile))"
    for newFile
    using processNewFile_order[OF assms(1,2)] compareFunctions_order[OF assms(1,2)]
    by (cases "find (\<lambda>f. FilePath f = FilePath newFile) (rev (Files base))") auto
  have c5: "\<forall>r \<in> set (?rec w1 newFile) \<union> set (?rec w2 newFile). File_inc r = FilePath newFile"
    for newFile
    using path by blast
  from ord r1 r2 have o1: "mset (map sorted_lines (Increases res1)) =
      mset (map sorted_lines (Increases res2))"
    and o2: "map File_inc (Increases res1) = map File_inc (Increases res2)" by simp_all
  show ?thesis
    unfolding Let_def using o1 o2 e1 e2 same c1 c2 c3 c4 c5 by blast
qed

theorem increase_report_up_to_order_witness:
  "range_order_ok insertion_order \<and> range_order_ok reverse_order \<and>
   ComputeCoverageIncrease insertion_order (Some two_files_base) (Some two_files_new) =
     Inr (\<lparr>Increases =
             [\<lparr>File_inc = ''b.cpp'', FunctionName_inc = ''g'', DemangledName_inc = ''g()'',
               LinesIncreased = 1, TotalLines = 1, IncreasedLineNumbers = [1],
               OldCoveredLines = 0, NewCoveredLines = 1\<rparr>,
              \<lparr>File_inc = ''b.cpp'', FunctionName_inc = ''h'', DemangledName_inc = ''h()'',
               LinesIncreased = 1, TotalLines = 1, IncreasedLineNumbers = [2],
               OldCoveredLines = 0, NewCoveredLines = 1\<rparr>,
              \<lparr>File_inc = ''a.cpp'', FunctionName_inc = ''f'', DemangledName_inc = ''f()'',
               LinesIncreased = 1, TotalLines = 1, IncreasedLineNumbers = [1],
               OldCoveredLines = 0, NewCoveredLines = 1\<rparr>]\<rparr>,
          None) \<and>
   ComputeCoverageIncrease reverse_order (Some two_files_base) (Some two_files_new) =
     Inr (\<lparr>Increases =
             [\<lparr>File_inc = ''b.cpp'', FunctionName_inc = ''h'', DemangledName_inc = ''h()'',
               LinesIncreased = 1, TotalLines = 1, IncreasedLineNumbers = [2],
               OldCoveredLines = 0, NewCoveredLines = 1\<rparr>,
              \<lparr>File_inc = ''b.cpp'', FunctionName_inc = ''g'', DemangledName_inc = ''g()'',
               LinesIncreased = 1, TotalLines = 1, IncreasedLineNumbers = [1],
               OldCoveredLines = 0, NewCoveredLines = 1\<rparr>,
              \<lparr>File_inc = ''a.cpp'', FunctionName_inc = ''f'', DemangledName_inc = ''f()'',
               LinesIncreased = 1, TotalLines = 1, IncreasedLineNumbers = [1],
               OldCoveredLines = 0, NewCoveredLines = 1\<rparr>]\<rparr>,
          None) \<and>
   map FilePath (Files two_files_new) = [''b.cpp'', ''a.cpp''] \<and>
   map File_inc
     (Increases (fst (projr (ComputeCoverageIncrease insertion_order (Some two_files_base)
                               (Some two_files_new))))) =
     [''b.cpp'', ''b.cpp'', ''a.cpp''] \<and>
   map File_inc
     (Increases (fst (projr (ComputeCoverageIncrease reverse_order (Some two_files_base)
                               (Some two_files_new))))) =
     [''b.cpp'', ''b.cpp'', ''a.cpp'']"
proof -
  note t = increase_report_up_to_order[OF range_order_ok_insertion range_order_ok_reverse
      two_files_insertion_result two_files_reverse_result]
  have m: "map FilePath (Files two_files_new) = [''b.cpp'', ''a.cpp'']"
    by (simp add: two_files_new_def)
  have p1: "map File_inc
     (Increases (fst (projr (ComputeCoverageIncrease insertion_order (Some two_files_base)
                               (Some two_files_new))))) =
     [''b.cpp'', ''b.cpp'', ''a.cpp'']"
    by (simp add: two_files_insertion_result)
  from t[THEN conjunct2, THEN conjunct1] p1
  have p2: "map File_inc
     (Increases (fst (projr (ComputeCoverageIncrease reverse_order (Some two_files_base)
                               (Some two_files_new))))) =
     [''b.cpp'', ''b.cpp'', ''a.cpp'']"
    by (simp add: two_files_insertion_result two_files_reverse_result)
  from range_order_ok_insertion range_order_ok_reverse
    two_files_insertion_result two_files_reverse_result m p1 p2
  show ?thesis by blast
qed

theorem increase_report_order_counterexample:
  "range_order_ok insertion_order \<and> range_order_ok reverse_order \<and>
   ComputeCoverageIncrease insertion_order (Some scenario1_base) (Some scenario1_new) =
     Inr (\<lparr>Increases =
             [\<lparr>File_inc = ''t.cpp'', FunctionName_inc = ''foo'', DemangledName_inc = ''foo()'',
               LinesIncreased = 2, TotalLines = 3, IncreasedLineNumbers = [1, 2],
               OldCoveredLines = 1, NewCoveredLines = 3\<rparr>]\<rparr>,
          None) \<and>
   ComputeCoverageIncrease reverse_order (Some scenario1_base) (Some scenario1_new) =
     Inr (\<lparr>Increases =
             [\<lparr>File_inc = ''t.cpp'', FunctionName_inc = ''foo'', DemangledName_inc = ''foo()'',
               LinesIncreased = 2, TotalLines = 3, IncreasedLineNumbers = [2, 1],
               OldCoveredLines = 1, NewCoveredLines = 3\<rparr>]\<rparr>,
          None) \<and>
   ComputeCoverageIncrease insertion_order (Some scenario1_base) (Some scenario1_new) \<noteq>
   ComputeCoverageIncrease reverse_order (Some scenario1_base) (Some scenario1_new)"
  using range_order_ok_insertion range_order_ok_reverse
  by (simp add: scenario1_insertion_result scenario1_reverse_result)

section \<open>The filter engine\<close>

lemma allowedFunctions_loop_index:
  "map_index False (allowedFunctions_loop fns allowed) name \<longleftrightarrow>
     name \<in> set fns \<or> map_index False allowed name"
  by (induction fns arbitrary: allowed) (auto simp: map_index_assign)

lemma allowedFunctions_index:
  "map_index False (allowedFunctions target) name \<longleftrightarrow> name \<in> set (Functions_tgt target)"
  by (simp add: allowedFunctions_def allowedFunctions_loop_index map_index_Nil)

text \<open>
  C6. The function test of the filter, for the allowed set of a target: a function is
  retained exactly when the target's list of function identifiers contains its mangled
  name, or its demangled name, or the part of its demangled name before the first \<open>(\<close>
  (the whole demangled name when it has no \<open>(\<close>). The identifiers are compared as
  strings, byte by byte.
\<close>

theorem function_test:
  "shouldIncludeFunction demangledName mangledName (allowedFunctions target) \<longleftrightarrow>
     mangledName \<in> set (Functions_tgt target) \<or>
     demangledName \<in> set (Functions_tgt target) \<or>
     takeWhile (\<lambda>c. c \<noteq> CHR ''('') demangledName \<in> set (Functions_tgt target)"
  by (simp add: shouldIncludeFunction_def allowedFunctions_index baseIdentifier_def)

text \<open>The cases of \<open>TestShouldIncludeFunction\<close>, and a name that differs in case only.\<close>

lemma shouldIncludeFunction_tests:
  "shouldIncludeFunction ''foo()'' ''_Z3foov'' [(''foo'', True)]"
  "shouldIncludeFunction ''foo()'' ''_Z3foov'' [(''foo()'', True)]"
  "shouldIncludeFunction ''foo()'' ''_Z3foov'' [(''_Z3foov'', True)]"
  "\<not> shouldIncludeFunction ''foo()'' ''_Z3foov'' [(''bar'', True)]"
  "shouldIncludeFunction ''calculate(int, double)'' ''_Z9calculateid'' [(''calculate'', True)]"
  "\<not> shouldIncludeFunction ''foo()'' ''_Z3foov'' []"
  "\<not> shouldIncludeFunction ''Foo()'' ''_Z3Foov'' [(''foo'', True)]"
  by (simp_all add: shouldIncludeFunction_def baseIdentifier_def map_index_def)

lemma demo_filter_result:
  "ApplyFilter insertion_order (\<lambda>path. path) demo_report (Some demo_filter) =
     \<lparr>FormatVersion = ''0.5'',
      Files = [\<lparr>FilePath = ''demo.cc'',
                Lines = [mkLine 1 ''_Z1fv'' 1],
                Functions = [mkFunction ''_Z1fv'' ''f()'']\<rparr>]\<rparr>"
  by code_simp

lemma path_filter_result:
  "ApplyFilter insertion_order (\<lambda>path. path) path_report (Some path_filter) = path_report"
  by code_simp

text \<open>
  C7. \<open>ApplyFilter\<close> with a nil filter configuration, or with one that has no targets,
  returns the report it was given: the same format version and the same files, with the
  same lines and functions.
\<close>

theorem filter_pass_through:
  "ApplyFilter w normalizeFilePath report None = report \<and>
   ApplyFilter w normalizeFilePath report (Some \<lparr>Targets = []\<rparr>) = report"
  by (simp add: ApplyFilter_def)

section \<open>The package's tests on the model\<close>

text \<open>
  The model gives what the package's tests expect: the detailed metrics of a function
  whose lines 2 and 3 become covered, a function that only the new report has, a report
  without increase, the statistics of a function with two uncovered lines, and the two
  filter tests. The walk orders matter to none of these expectations.
\<close>

lemma detailed_metrics_test:
  "ComputeCoverageIncrease reverse_order (Some metrics_base) (Some metrics_new) =
     Inr (\<lparr>Increases =
             [\<lparr>File_inc = ''demo.cpp'', FunctionName_inc = ''foo'', DemangledName_inc = ''foo()'',
               LinesIncreased = 2, TotalLines = 4, IncreasedLineNumbers = [3, 2],
               OldCoveredLines = 2, NewCoveredLines = 4\<rparr>]\<rparr>,
          None)"
  by code_simp

lemma new_function_test:
  "ComputeCoverageIncrease reverse_order (Some new_function_base) (Some new_function_new) =
     Inr (\<lparr>Increases =
             [\<lparr>File_inc = ''test.cpp'', FunctionName_inc = ''bar'', DemangledName_inc = ''bar()'',
               LinesIncreased = 2, TotalLines = 2, IncreasedLineNumbers = [6, 5],
               OldCoveredLines = 0, NewCoveredLines = 2\<rparr>]\<rparr>,
          None)"
  by code_simp

lemma no_increase_test:
  "ComputeCoverageIncrease insertion_order (Some metrics_new) (Some metrics_new) =
     Inr (\<lparr>Increases = []\<rparr>, None)"
  by code_simp

lemma statistics_test:
  "FindUncoveredLines reverse_order (Some statistics_report) =
     Inr (\<lparr>Files_unc =
             [\<lparr>FilePath_unc = ''test.cpp'',
               UncoveredFunctions =
                 [\<lparr>FunctionName_unc = ''foo'', DemangledName_unc = ''foo()'',
                   UncoveredLineNumbers = [2, 3], TotalLines_unc = 5, CoveredLines = 3\<rparr>]\<rparr>]\<rparr>,
          None)"
  by code_simp

lemma lines_filtering_test:
  "ApplyFilter insertion_order (\<lambda>path. path) lines_report (Some lines_filter) =
     \<lparr>FormatVersion = [],
      Files = [\<lparr>FilePath = ''test.cpp'',
                Lines = [mkLine 1 ''foo'' 1, mkLine 2 ''foo'' 0],
                Functions = [mkFunction ''foo'' ''foo()'']\<rparr>]\<rparr>"
  by code_simp

lemma no_matching_files_test:
  "ApplyFilter insertion_order (\<lambda>path. path) lines_report (Some nonexistent_filter) =
     \<lparr>FormatVersion = [], Files = []\<rparr>"
  by code_simp

text \<open>
  The three helpers, as \<open>TestBuildLineCoverageMap\<close>, \<open>TestBuildFunctionNameMap\<close> and
  \<open>TestGetTotalFunctionLines\<close> call them.
\<close>

lemma buildLineCoverageMap_test:
  "buildLineCoverageMap
     \<lparr>FilePath = [],
      Lines = [mkLine 1 ''foo'' 1, mkLine 2 ''foo'' 0, mkLine 5 ''bar'' 5],
      Functions = []\<rparr> =
   [(''foo'', [(1, 1), (2, 0)]), (''bar'', [(5, 5)])]"
  by code_simp

lemma buildFunctionNameMap_test:
  "buildFunctionNameMap
     \<lparr>FilePath = [], Lines = [],
      Functions = [mkFunction ''_Z3foov'' ''foo()'', mkFunction ''_Z3barv'' ''bar()'']\<rparr> =
   [(''_Z3foov'', ''foo()''), (''_Z3barv'', ''bar()'')]"
  by code_simp

lemma getTotalFunctionLines_test:
  "getTotalFunctionLines (hd (Files statistics_report)) ''foo'' = 5 \<and>
   getTotalFunctionLines (hd (Files statistics_report)) ''nonexistent'' = 0"
  by code_simp

section \<open>No failure path\<close>

lemma str_order_Nil: "range_order_ok w \<Longrightarrow> str_order w [] = []"
  by (metis range_order_ok_def mset_zero_iff)

lemma processNewFile_no_match:
  assumes "range_order_ok w" and "\<forall>l \<in> set (Lines f). Count l \<le> 0"
  shows "processNewFile w f = []"
proof -
  have "set (map_keys (processNewFile_group (Lines f) [])) = {}"
    using assms(2) by (auto simp: processNewFile_group_keys map_keys_Nil)
  then have "map_keys (processNewFile_group (Lines f) []) = []" by simp
  then show ?thesis by (simp add: processNewFile_eq str_order_Nil[OF assms(1)])
qed

lemma compareFunctions_no_match:
  assumes "\<forall>l \<in> set (Lines f). Count l \<le> 0"
  shows "compareFunctions w bf f = []"
proof -
  have "map_index 0 (map_index [] (buildLineCoverageMap f) fn) n \<le> 0" for fn n
  proof (cases "find (\<lambda>l. FunctionName l = fn \<and> LineNumber l = n) (rev (Lines f))")
    case None
    then show ?thesis by (simp add: buildLineCoverageMap_count)
  next
    case (Some l)
    from find_SomeD[OF Some] assms have "Count l \<le> 0" by simp
    with Some show ?thesis by (simp add: buildLineCoverageMap_count)
  qed
  then have "\<not> 0 < map_index 0 (map_index [] (buildLineCoverageMap f) fn) n" for fn n
    by (simp add: not_less)
  then have "compareFunctions_function w f bc (buildLineCoverageMap f) fns fn = []" for bc fns fn
    by (simp add: compareFunctions_function_eq Let_def)
  then show ?thesis by (simp add: compareFunctions_eq)
qed

lemma ComputeCoverageIncrease_loop_no_match:
  assumes "range_order_ok w" and "\<forall>f \<in> set fs. \<forall>l \<in> set (Lines f). Count l \<le> 0"
  shows "ComputeCoverageIncrease_loop w bm fs [] = []"
  using assms(2)
proof (induction fs)
  case Nil
  then show ?case by simp
next
  case (Cons f fs)
  then have "\<forall>l \<in> set (Lines f). Count l \<le> 0" by simp
  with Cons assms(1) show ?case
    by (cases "map_of bm (FilePath f)")
       (simp_all add: processNewFile_no_match compareFunctions_no_match)
qed

lemma FindUncoveredLines_no_match:
  assumes "range_order_ok w" and "\<forall>f \<in> set (Files report). \<forall>l \<in> set (Lines f). Count l \<noteq> 0"
  shows "FindUncoveredLines w (Some report) = Inr (\<lparr>Files_unc = []\<rparr>, None)"
proof -
  let ?um = "fst (FindUncoveredLines_firstPass (Files report) ([], []))"
  have "p \<notin> set (FindUncoveredLines_filePaths w ?um)" for p
  proof
    assume "p \<in> set (FindUncoveredLines_filePaths w ?um)"
    then obtain lf l where lf: "find (\<lambda>f. FilePath f = p) (rev (Files report)) = Some lf"
      and l: "l \<in> set (Lines lf)" "Count l = 0"
      unfolding FindUncoveredLines_filePaths_iff[OF assms(1)] by blast
    from find_SomeD[OF lf] have "lf \<in> set (Files report)" by simp
    with assms(2) l show False by blast
  qed
  then have "FindUncoveredLines_filePaths w ?um = []"
    by (cases "FindUncoveredLines_filePaths w ?um") auto
  then show ?thesis by (simp add: FindUncoveredLines_Some)
qed

text \<open>
  C9. On reports that are not nil, \<open>ComputeCoverageIncrease\<close> and \<open>FindUncoveredLines\<close>
  return a result together with a nil error, whatever the reports hold and whatever the
  order of the map walks: neither engine has a failure path. Finding nothing is not an
  error either: when no line of the new report has a count \<open>> 0\<close> the diff engine returns
  an empty list of increases, and when no line of the report has count \<open>0\<close> the uncovered
  engine returns an empty list of files, both with a nil error.
\<close>

theorem engines_never_fail:
  "(\<exists>res. ComputeCoverageIncrease w (Some base) (Some new) = Inr (res, None)) \<and>
   (\<exists>res. FindUncoveredLines w (Some report) = Inr (res, None)) \<and>
   (range_order_ok w \<and> (\<forall>f \<in> set (Files new). \<forall>l \<in> set (Lines f). Count l \<le> 0) \<longrightarrow>
      ComputeCoverageIncrease w (Some base) (Some new) = Inr (\<lparr>Increases = []\<rparr>, None)) \<and>
   (range_order_ok w \<and> (\<forall>f \<in> set (Files report). \<forall>l \<in> set (Lines f). Count l \<noteq> 0) \<longrightarrow>
      FindUncoveredLines w (Some report) = Inr (\<lparr>Files_unc = []\<rparr>, None))"
proof (intro conjI impI)
  show "\<exists>res. ComputeCoverageIncrease w (Some base) (Some new) = Inr (res, None)"
    by (simp add: ComputeCoverageIncrease_Some)
  show "\<exists>res. FindUncoveredLines w (Some report) = Inr (res, None)"
    by (simp add: FindUncoveredLines_Some)
next
  assume "range_order_ok w \<and> (\<forall>f \<in> set (Files new). \<forall>l \<in> set (Lines f). Count l \<le> 0)"
  then show "ComputeCoverageIncrease w (Some base) (Some new) = Inr (\<lparr>Increases = []\<rparr>, None)"
    by (simp add: ComputeCoverageIncrease_Some ComputeCoverageIncrease_loop_no_match)
next
  assume "range_order_ok w \<and>
    (\<forall>f \<in> set (Files report). \<forall>l \<in> set (Lines f). Count l \<noteq> 0)"
  then show "FindUncoveredLines w (Some report) = Inr (\<lparr>Files_unc = []\<rparr>, None)"
    by (simp add: FindUncoveredLines_no_match)
qed

theorem engines_never_fail_witness:
  "range_order_ok reverse_order \<and>
   list_all (\<lambda>f. list_all (\<lambda>l. Count l \<le> 0) (Lines f)) (Files scenario2_report) \<and>
   list_all (\<lambda>f. list_all (\<lambda>l. Count l \<noteq> 0) (Lines f)) (Files scenario1_new) \<and>
   ComputeCoverageIncrease reverse_order (Some scenario1_base) (Some scenario2_report) =
     Inr (\<lparr>Increases = []\<rparr>, None) \<and>
   FindUncoveredLines reverse_order (Some scenario1_new) = Inr (\<lparr>Files_unc = []\<rparr>, None)"
proof -
  have h1: "\<forall>f \<in> set (Files scenario2_report). \<forall>l \<in> set (Lines f). Count l \<le> 0"
    by (simp add: scenario2_report_def scenario2_file_def mkLine_def)
  have h2: "\<forall>f \<in> set (Files scenario1_new). \<forall>l \<in> set (Lines f). Count l \<noteq> 0"
    by (simp add: scenario1_new_def scenario1_new_file_def mkLine_def)
  note t = engines_never_fail[of reverse_order scenario1_base scenario2_report scenario1_new]
  from t[THEN conjunct2, THEN conjunct2, THEN conjunct1] range_order_ok_reverse h1
  have c: "ComputeCoverageIncrease reverse_order (Some scenario1_base) (Some scenario2_report) =
     Inr (\<lparr>Increases = []\<rparr>, None)" by blast
  from t[THEN conjunct2, THEN conjunct2, THEN conjunct2] range_order_ok_reverse h2
  have u: "FindUncoveredLines reverse_order (Some scenario1_new) = Inr (\<lparr>Files_unc = []\<rparr>, None)"
    by blast
  from range_order_ok_reverse h1 h2 c u show ?thesis by (simp add: list_all_iff)
qed

end
